theory Spec2Isabelle
  imports Complex_Main "HOL-Library.AList" "HOL-Library.Product_Lexorder"
begin

section \<open>Common Python notions\<close>

text \<open>
  The exceptions that the modelled code can raise.  A function that can raise returns
  \<open>error + 'a\<close>, with \<open>Inl\<close> the exception that leaves the function.
\<close>

datatype error =
    KeyError
  | ValueError
  | OverflowError
  | AttributeError
  | FileNotFoundError
  | PermissionError
  | ProcessLookupError
  | NoSuchProcess
  | OtherError
  | KeyboardInterrupt

text \<open>
  \<open>except Exception\<close> catches every exception of the model but \<open>KeyboardInterrupt\<close>,
  which derives from \<open>BaseException\<close> only.
\<close>

definition is_Exception :: "error \<Rightarrow> bool" where
  "is_Exception e = (e \<noteq> KeyboardInterrupt)"

text \<open>
  Strings are lists of 8-bit characters, read as code points below 256.
  \<open>str.upper\<close> and \<open>str.lower\<close> are modelled on the ASCII letters; the other
  characters are left as they are.
\<close>

definition upper_char :: "char \<Rightarrow> char" where
  "upper_char c =
     (case map_of (zip ''abcdefghijklmnopqrstuvwxyz'' ''ABCDEFGHIJKLMNOPQRSTUVWXYZ'') c of
        Some u \<Rightarrow> u
      | None \<Rightarrow> c)"

definition py_upper :: "string \<Rightarrow> string" where
  "py_upper s = map upper_char s"

text \<open>
  A Python \<open>dict\<close> keeps its keys in insertion order: it is an association list,
  \<open>map_of\<close> looks a key up, and \<open>AList.update\<close> replaces the value of a key in place
  or appends a new key at the end, as \<open>d[k] = v\<close> does.
\<close>

definition dict_values :: "('k \<times> 'v) list \<Rightarrow> 'v list" where
  "dict_values d = map snd d"

definition dict_has :: "('k \<times> 'v) list \<Rightarrow> 'k \<Rightarrow> bool" where
  "dict_has d k = (map_of d k \<noteq> None)"

section \<open>Job queue (queue.py)\<close>

datatype Priority = LOW | NORMAL | HIGH | CRITICAL

fun priority_value :: "Priority \<Rightarrow> int" where
  "priority_value LOW = 3"
| "priority_value NORMAL = 2"
| "priority_value HIGH = 1"
| "priority_value CRITICAL = 0"

text \<open>\<open>Priority[name]\<close>: the member of that name, or \<open>KeyError\<close>.\<close>

definition Priority_lookup :: "string \<Rightarrow> error + Priority" where
  "Priority_lookup name =
     (if name = ''LOW'' then Inr LOW
      else if name = ''NORMAL'' then Inr NORMAL
      else if name = ''HIGH'' then Inr HIGH
      else if name = ''CRITICAL'' then Inr CRITICAL
      else Inl KeyError)"

record Job =
  job_id :: int
  command :: string
  args :: "string list"
  priority :: Priority
  queue :: string
  cores :: int
  memory :: string
  created_at :: real
  started_at :: "real option"
  completed_at :: "real option"
  status :: string
  process_id :: "int option"
  return_code :: "int option"

record JobQueue =
  jobs :: "(int \<times> Job) list"
  queues :: "(string \<times> int list) list"
  next_job_id :: int

text \<open>
  \<open>__init__\<close>: \<open>queue_names\<close> is what \<open>config.get('scheduler', 'queues')\<close> returned,
  an empty list standing for a falsy answer or a dictionary, both of which the code
  replaces by \<open>['default']\<close>.
\<close>

definition JobQueue_init :: "string list \<Rightarrow> JobQueue" where
  "JobQueue_init queue_names =
     \<lparr> jobs = [],
       queues = foldl (\<lambda>qs queue_name. AList.update queue_name [] qs) []
                  (if queue_names = [] then [''default''] else queue_names),
       next_job_id = 1 \<rparr>"

text \<open>
  The key of \<open>_sort_queue\<close>'s lambda, \<open>(self.jobs[jid].priority.value,
  self.jobs[jid].created_at)\<close>; Python compares the tuples lexicographically.
\<close>

definition sort_key_of :: "(int \<times> Job) list \<Rightarrow> int \<Rightarrow> int \<times> real" where
  "sort_key_of js jid =
     (case map_of js jid of
        Some j \<Rightarrow> (priority_value (priority j), created_at j)
      | None \<Rightarrow> undefined)"

text \<open>
  \<open>_sort_queue\<close>: \<open>list.sort(key = ...)\<close> computes the key of every element, which
  raises \<open>KeyError\<close> on an id that is not in \<open>self.jobs\<close>, and then sorts stably.
\<close>

definition sort_queue :: "JobQueue \<Rightarrow> string \<Rightarrow> error + JobQueue" where
  "sort_queue s q =
     (case map_of (queues s) q of
        None \<Rightarrow> Inr s
      | Some job_ids \<Rightarrow>
          if \<forall>jid \<in> set job_ids. dict_has (jobs s) jid
          then Inr (s\<lparr>queues := AList.update q (sort_key (sort_key_of (jobs s)) job_ids) (queues s)\<rparr>)
          else Inl KeyError)"

text \<open>
  \<open>submit_job\<close>; \<open>now\<close> is the value of \<open>time.time()\<close> that the default factory of
  \<open>created_at\<close> reads.  The result is the new job id and the new state.
\<close>

definition submit_job ::
  "JobQueue \<Rightarrow> real \<Rightarrow> string \<Rightarrow> string list \<Rightarrow> string \<Rightarrow> string \<Rightarrow> int \<Rightarrow> string
     \<Rightarrow> error + (int \<times> JobQueue)" where
  "submit_job s now cmd as q prio n_cores mem =
     (let priority_enum = (case Priority_lookup (py_upper prio) of
                             Inr p \<Rightarrow> p
                           | Inl _ \<Rightarrow> NORMAL);
          job = \<lparr> job_id = next_job_id s, command = cmd, args = as,
                  priority = priority_enum, queue = q, cores = n_cores, memory = mem,
                  created_at = now, started_at = None, completed_at = None,
                  status = ''queued'', process_id = None, return_code = None \<rparr>;
          jobs1 = AList.update (next_job_id s) job (jobs s);
          queues1 = (if dict_has (queues s) q then queues s else AList.update q [] (queues s));
          queues2 = (case map_of queues1 q of
                       Some job_ids \<Rightarrow> AList.update q (job_ids @ [next_job_id s]) queues1
                     | None \<Rightarrow> queues1)
      in case sort_queue (s\<lparr>jobs := jobs1, queues := queues2\<rparr>) q of
           Inl e \<Rightarrow> Inl e
         | Inr s' \<Rightarrow> Inr (next_job_id s, s'\<lparr>next_job_id := next_job_id s + 1\<rparr>))"

definition get_job :: "JobQueue \<Rightarrow> int \<Rightarrow> Job option" where
  "get_job s jid = map_of (jobs s) jid"

definition get_next_job :: "JobQueue \<Rightarrow> string \<Rightarrow> error + Job option" where
  "get_next_job s q =
     (case map_of (queues s) q of
        None \<Rightarrow> Inr None
      | Some [] \<Rightarrow> Inr None
      | Some (jid # _) \<Rightarrow>
          (case map_of (jobs s) jid of
             None \<Rightarrow> Inl KeyError
           | Some job \<Rightarrow> if status job = ''queued'' then Inr (Some job) else Inr None))"

text \<open>\<open>start_job\<close>; \<open>now\<close> is the \<open>time.time()\<close> it reads.\<close>

definition start_job :: "JobQueue \<Rightarrow> real \<Rightarrow> int \<Rightarrow> bool \<times> JobQueue" where
  "start_job s now jid =
     (case map_of (jobs s) jid of
        None \<Rightarrow> (False, s)
      | Some job \<Rightarrow>
          (True, s\<lparr>jobs := AList.update jid
                     (job\<lparr>status := ''running'', started_at := Some now\<rparr>) (jobs s)\<rparr>))"

text \<open>
  The loop of \<open>complete_job\<close> and \<open>cancel_job\<close> over \<open>self.queues.items()\<close>:
  \<open>list.remove\<close> deletes the first occurrence.
\<close>

definition remove_from_queues :: "int \<Rightarrow> (string \<times> int list) list \<Rightarrow> (string \<times> int list) list" where
  "remove_from_queues jid qs =
     map (\<lambda>(queue_name, job_ids).
            (queue_name, if jid \<in> set job_ids then remove1 jid job_ids else job_ids)) qs"

definition complete_job :: "JobQueue \<Rightarrow> real \<Rightarrow> int \<Rightarrow> int \<Rightarrow> bool \<times> JobQueue" where
  "complete_job s now jid rc =
     (case map_of (jobs s) jid of
        None \<Rightarrow> (False, s)
      | Some job \<Rightarrow>
          (True, s\<lparr>jobs := AList.update jid
                     (job\<lparr>status := ''completed'', completed_at := Some now,
                          return_code := Some rc\<rparr>) (jobs s),
                   queues := remove_from_queues jid (queues s)\<rparr>))"

definition cancel_job :: "JobQueue \<Rightarrow> int \<Rightarrow> bool \<times> JobQueue" where
  "cancel_job s jid =
     (case map_of (jobs s) jid of
        None \<Rightarrow> (False, s)
      | Some job \<Rightarrow>
          if status job = ''running'' \<or> status job = ''completed'' then (False, s)
          else (True, s\<lparr>jobs := AList.update jid (job\<lparr>status := ''cancelled''\<rparr>) (jobs s),
                        queues := remove_from_queues jid (queues s)\<rparr>))"

text \<open>
  \<open>get_jobs\<close>: \<open>if queue:\<close> and \<open>if status:\<close> test truthiness, so \<open>None\<close> and the
  empty string both mean no filter.
\<close>

definition get_jobs :: "JobQueue \<Rightarrow> string option \<Rightarrow> string option \<Rightarrow> Job list" where
  "get_jobs s q st =
     (let jobs0 = dict_values (jobs s);
          jobs1 = (case q of
                     None \<Rightarrow> jobs0
                   | Some qn \<Rightarrow> if qn = [] then jobs0 else filter (\<lambda>j. queue j = qn) jobs0)
      in case st of
           None \<Rightarrow> jobs1
         | Some sn \<Rightarrow> if sn = [] then jobs1 else filter (\<lambda>j. status j = sn) jobs1)"

record QueueStats =
  stats_queue :: string
  total_jobs :: nat
  n_queued :: nat
  n_running :: nat
  n_completed :: nat
  n_failed :: nat
  n_cancelled :: nat

text \<open>\<open>[self.jobs[jid] for jid in ...]\<close> raises \<open>KeyError\<close> at the first unknown id.\<close>

fun lookup_all :: "(int \<times> Job) list \<Rightarrow> int list \<Rightarrow> error + Job list" where
  "lookup_all js [] = Inr []"
| "lookup_all js (jid # jids) =
     (case map_of js jid of
        None \<Rightarrow> Inl KeyError
      | Some j \<Rightarrow> (case lookup_all js jids of Inl e \<Rightarrow> Inl e | Inr rest \<Rightarrow> Inr (j # rest)))"

definition count_status :: "string \<Rightarrow> Job list \<Rightarrow> nat" where
  "count_status st js = length (filter (\<lambda>j. status j = st) js)"

definition get_queue_stats :: "JobQueue \<Rightarrow> string \<Rightarrow> error + QueueStats" where
  "get_queue_stats s q =
     (case lookup_all (jobs s) (case map_of (queues s) q of None \<Rightarrow> [] | Some ids \<Rightarrow> ids) of
        Inl e \<Rightarrow> Inl e
      | Inr js \<Rightarrow>
          Inr \<lparr> stats_queue = q, total_jobs = length js,
                n_queued = count_status ''queued'' js,
                n_running = count_status ''running'' js,
                n_completed = count_status ''completed'' js,
                n_failed = count_status ''failed'' js,
                n_cancelled = count_status ''cancelled'' js \<rparr>)"

text \<open>
  The states that a \<open>JobQueue\<close> object goes through: created by \<open>__init__\<close>, then any
  sequence of calls of its four mutating methods, with any arguments and clock values.
\<close>

inductive reachable :: "JobQueue \<Rightarrow> bool" where
  r_init: "reachable (JobQueue_init queue_names)"
| r_submit: "reachable s \<Longrightarrow> submit_job s now cmd as q prio n_cores mem = Inr (jid, s')
              \<Longrightarrow> reachable s'"
| r_start: "reachable s \<Longrightarrow> reachable (snd (start_job s now jid))"
| r_complete: "reachable s \<Longrightarrow> reachable (snd (complete_job s now jid rc))"
| r_cancel: "reachable s \<Longrightarrow> reachable (snd (cancel_job s jid))"

subsection \<open>Invariants of the reachable states\<close>

text \<open>The ids listed under a queue name, \<open>self.queues.get(queue, [])\<close>.\<close>

definition queue_ids :: "JobQueue \<Rightarrow> string \<Rightarrow> int list" where
  "queue_ids s q = (case map_of (queues s) q of None \<Rightarrow> [] | Some ids \<Rightarrow> ids)"

definition ids_bounded :: "JobQueue \<Rightarrow> bool" where
  "ids_bounded s \<longleftrightarrow> (\<forall>k j. map_of (jobs s) k = Some j \<longrightarrow> k < next_job_id s)"

definition queued_known :: "JobQueue \<Rightarrow> bool" where
  "queued_known s \<longleftrightarrow>
     (\<forall>q ids jid. map_of (queues s) q = Some ids \<longrightarrow> jid \<in> set ids \<longrightarrow> dict_has (jobs s) jid)"


definition status_known :: "JobQueue \<Rightarrow> bool" where
  "status_known s \<longleftrightarrow>
     (\<forall>k j. map_of (jobs s) k = Some j \<longrightarrow>
        status j \<in> {''queued'', ''running'', ''completed'', ''cancelled''})"

definition keys_distinct :: "JobQueue \<Rightarrow> bool" where
  "keys_distinct s \<longleftrightarrow> distinct (map fst (jobs s))"




text \<open>The ids listed under a queue name are distinct, and so are the queue names.\<close>

definition queue_names_distinct :: "JobQueue \<Rightarrow> bool" where
  "queue_names_distinct s \<longleftrightarrow> distinct (map fst (queues s))"

definition queue_ids_distinct :: "JobQueue \<Rightarrow> bool" where
  "queue_ids_distinct s \<longleftrightarrow> (\<forall>q ids. map_of (queues s) q = Some ids \<longrightarrow> distinct ids)"

text \<open>A job listed in a queue is queued or running.\<close>

definition queued_live :: "JobQueue \<Rightarrow> bool" where
  "queued_live s \<longleftrightarrow>
     (\<forall>q ids k j. map_of (queues s) q = Some ids \<longrightarrow> k \<in> set ids \<longrightarrow> map_of (jobs s) k = Some j
        \<longrightarrow> status j = ''queued'' \<or> status j = ''running'')"

subsection \<open>A concrete run\<close>

text \<open>
  A queue created with no configured names, then three submissions to \<open>default\<close> with
  priorities low, high, normal at clock values 10, 11, 12.
\<close>

definition demo_s0 :: JobQueue where
  "demo_s0 = JobQueue_init []"

definition demo_s1 :: JobQueue where
  "demo_s1 = snd (projr (submit_job demo_s0 10 ''sim'' [''a''] ''default'' ''low'' 1 ''1GB''))"

definition demo_s2 :: JobQueue where
  "demo_s2 = snd (projr (submit_job demo_s1 11 ''sim'' [''b''] ''default'' ''high'' 1 ''1GB''))"

definition demo_s3 :: JobQueue where
  "demo_s3 = snd (projr (submit_job demo_s2 12 ''sim'' [''c''] ''default'' ''normal'' 1 ''1GB''))"

text \<open>Two submissions of equal priority read the same clock value.\<close>

definition demo_f1 :: JobQueue where
  "demo_f1 = snd (projr (submit_job demo_s0 10 ''sim'' [''a''] ''default'' ''normal'' 1 ''1GB''))"


text \<open>Job 1 of \<open>demo_s1\<close> completed while still queued, then started; and cancelled twice.\<close>

definition demo_completed :: JobQueue where
  "demo_completed = snd (complete_job demo_s1 20 1 0)"

definition demo_restarted :: JobQueue where
  "demo_restarted = snd (start_job demo_completed 21 1)"

definition demo_cancelled :: JobQueue where
  "demo_cancelled = snd (cancel_job demo_s1 1)"

definition demo_running :: JobQueue where
  "demo_running = snd (start_job demo_s1 20 1)"

section \<open>Resource monitor (resource.py)\<close>

text \<open>
  \<open>collections.deque(maxlen = n)\<close>: the constructor raises \<open>ValueError\<close> on a negative
  \<open>n\<close>; \<open>append\<close> adds the item on the right and, when the length then exceeds
  \<open>maxlen\<close>, removes one item on the left.
\<close>

record 'a deque =
  maxlen :: nat
  items :: "'a list"

definition deque_new :: "int \<Rightarrow> error + 'a deque" where
  "deque_new n = (if n < 0 then Inl ValueError else Inr \<lparr> maxlen = nat n, items = [] \<rparr>)"

definition deque_append :: "'a deque \<Rightarrow> 'a \<Rightarrow> 'a deque" where
  "deque_append d x =
     (let ys = items d @ [x]
      in d\<lparr>items := (if length ys > maxlen d then tl ys else ys)\<rparr>)"

text \<open>
  The part of the \<open>stats\<close> dictionary that \<open>_add_to_history\<close> reads.  The keys
  \<open>cpu_per_core\<close>, \<open>disk_io\<close> and \<open>network_io\<close> may be absent.
\<close>

record Stats =
  timestamp :: real
  cpu_percent :: real
  cpu_per_core :: "real list option"
  memory_percent :: real
  memory_used :: int
  disk_io :: "(int \<times> int) option"
  network_io :: "(int \<times> int) option"

text \<open>The dictionaries stored in the four rings.\<close>

datatype Sample =
    CpuSample real real "real list"
  | MemorySample real real int
  | DiskSample real int int
  | NetworkSample real int int

record ResourceMonitor =
  history_size :: int
  history :: "(string \<times> Sample deque) list"

text \<open>\<open>__init__\<close>; \<open>None\<close> is the call without argument, which takes the default 3600.\<close>

definition ResourceMonitor_init :: "int option \<Rightarrow> error + ResourceMonitor" where
  "ResourceMonitor_init arg =
     (let n = (case arg of None \<Rightarrow> 3600 | Some k \<Rightarrow> k)
      in case deque_new n of
           Inl e \<Rightarrow> Inl e
         | Inr d \<Rightarrow>
             Inr \<lparr> history_size = n,
                   history = [(''cpu'', d), (''memory'', d), (''disk'', d), (''network'', d)] \<rparr>)"

text \<open>\<open>self.history[metric].append(entry)\<close>; the subscript raises on an unknown key.\<close>

definition history_append :: "ResourceMonitor \<Rightarrow> string \<Rightarrow> Sample \<Rightarrow> error + ResourceMonitor" where
  "history_append m metric entry =
     (case map_of (history m) metric of
        None \<Rightarrow> Inl KeyError
      | Some d \<Rightarrow> Inr (m\<lparr>history := AList.update metric (deque_append d entry) (history m)\<rparr>))"

definition cpu_entry :: "Stats \<Rightarrow> Sample" where
  "cpu_entry st = CpuSample (timestamp st) (cpu_percent st)
                    (case cpu_per_core st of None \<Rightarrow> [] | Some cs \<Rightarrow> cs)"

definition memory_entry :: "Stats \<Rightarrow> Sample" where
  "memory_entry st = MemorySample (timestamp st) (memory_percent st) (memory_used st)"

definition disk_entry :: "Stats \<Rightarrow> Sample option" where
  "disk_entry st = map_option (\<lambda>(r, w). DiskSample (timestamp st) r w) (disk_io st)"

definition network_entry :: "Stats \<Rightarrow> Sample option" where
  "network_entry st = map_option (\<lambda>(s, r). NetworkSample (timestamp st) s r) (network_io st)"

definition add_to_history :: "ResourceMonitor \<Rightarrow> Stats \<Rightarrow> error + ResourceMonitor" where
  "add_to_history m st =
     (case history_append m ''cpu'' (cpu_entry st) of
        Inl e \<Rightarrow> Inl e
      | Inr m1 \<Rightarrow>
     (case history_append m1 ''memory'' (memory_entry st) of
        Inl e \<Rightarrow> Inl e
      | Inr m2 \<Rightarrow>
     (case (case disk_entry st of
              None \<Rightarrow> Inr m2
            | Some entry \<Rightarrow> history_append m2 ''disk'' entry) of
        Inl e \<Rightarrow> Inl e
      | Inr m3 \<Rightarrow>
     (case network_entry st of
        None \<Rightarrow> Inr m3
      | Some entry \<Rightarrow> history_append m3 ''network'' entry))))"

text \<open>A sequence of calls of \<open>_add_to_history\<close>, stopping at the first that raises.\<close>

fun add_all_to_history :: "ResourceMonitor \<Rightarrow> Stats list \<Rightarrow> error + ResourceMonitor" where
  "add_all_to_history m [] = Inr m"
| "add_all_to_history m (st # sts) =
     (case add_to_history m st of
        Inl e \<Rightarrow> Inl e
      | Inr m' \<Rightarrow> add_all_to_history m' sts)"

text \<open>The samples held by the ring of a metric, oldest first.\<close>

definition ring :: "ResourceMonitor \<Rightarrow> string \<Rightarrow> Sample list" where
  "ring m metric = (case map_of (history m) metric of None \<Rightarrow> [] | Some d \<Rightarrow> items d)"

text \<open>The last \<open>n\<close> elements of a list.\<close>

definition last_n :: "nat \<Rightarrow> 'a list \<Rightarrow> 'a list" where
  "last_n n xs = drop (length xs - n) xs"

text \<open>The entries that a list of snapshots offers to the ring of a metric, in order.\<close>

definition offered :: "string \<Rightarrow> Stats list \<Rightarrow> Sample list" where
  "offered metric sts =
     (if metric = ''cpu'' then map cpu_entry sts
      else if metric = ''memory'' then map memory_entry sts
      else if metric = ''disk'' then List.map_filter disk_entry sts
      else if metric = ''network'' then List.map_filter network_entry sts
      else [])"

text \<open>The keys of \<open>self.history\<close>.\<close>

definition metrics :: "string set" where
  "metrics = {''cpu'', ''memory'', ''disk'', ''network''}"

text \<open>What one snapshot offers to the ring of a metric: one entry or none.\<close>

definition entry_for :: "string \<Rightarrow> Stats \<Rightarrow> Sample list" where
  "entry_for metric st =
     (if metric = ''cpu'' then [cpu_entry st]
      else if metric = ''memory'' then [memory_entry st]
      else if metric = ''disk'' then (case disk_entry st of None \<Rightarrow> [] | Some e \<Rightarrow> [e])
      else if metric = ''network'' then (case network_entry st of None \<Rightarrow> [] | Some e \<Rightarrow> [e])
      else [])"

text \<open>
  The ring of a metric has the capacity \<open>history_size\<close> and holds the last
  \<open>history_size\<close> of the entries \<open>xs\<close>.
\<close>

definition ring_holds :: "ResourceMonitor \<Rightarrow> string \<Rightarrow> Sample list \<Rightarrow> bool" where
  "ring_holds m metric xs \<longleftrightarrow>
     (\<exists>d. map_of (history m) metric = Some d \<and> maxlen d = nat (history_size m)
          \<and> items d = last_n (nat (history_size m)) xs)"

definition rings_hold :: "ResourceMonitor \<Rightarrow> Stats list \<Rightarrow> bool" where
  "rings_hold m sts \<longleftrightarrow>
     (\<forall>metric \<in> metrics. ring_holds m metric (offered metric sts)) \<and>
     (\<forall>metric. metric \<notin> metrics \<longrightarrow> map_of (history m) metric = None)"

text \<open>
  Three snapshots for a concrete run; the first has no disk and network deltas, as the
  first call of \<open>get_system_stats\<close> has no baseline.
\<close>

definition demo_stats :: "real \<Rightarrow> bool \<Rightarrow> Stats" where
  "demo_stats t first =
     \<lparr> timestamp = t, cpu_percent = 5, cpu_per_core = Some [4, 6], memory_percent = 40,
       memory_used = 1000, disk_io = (if first then None else Some (10, 20)),
       network_io = (if first then None else Some (30, 40)) \<rparr>"

definition demo_monitor :: ResourceMonitor where
  "demo_monitor = projr (ResourceMonitor_init (Some 2))"

section \<open>Process executor (executor.py)\<close>

text \<open>
  The command dictionary that the parser builds, one per pipeline stage, with its keys
  \<open>command\<close>, \<open>args\<close>, \<open>redirects\<close>, \<open>background\<close>, \<open>pipe_from\<close>, \<open>pipe_to\<close>
  and \<open>raw\<close>.  The \<open>redirects\<close> dictionary keeps its insertion order.
\<close>

record CommandDescriptor =
  d_command :: string
  d_args :: "string list"
  d_redirects :: "(string \<times> string) list"
  d_background :: bool
  d_pipe_from :: bool
  d_pipe_to :: bool
  d_raw :: string

text \<open>
  What \<open>_setup_redirects\<close> puts into \<open>stdin\<close>, \<open>stdout\<close> and \<open>stderr\<close>: \<open>None\<close>, a
  file object (its name and mode), or one of the integer constants
  \<open>subprocess.DEVNULL\<close> and \<open>subprocess.STDOUT\<close>.
\<close>

datatype stream = FileObject string string | DEVNULL | STDOUT

text \<open>What the executor prints or logs.\<close>

datatype message =
    CannotOpen string
  | CannotCreate string
  | CommandNotFound string
  | PermissionDenied string
  | ErrorExecuting
  | JobStarted "int option" int
  | LogExecutionError
  | LogMemoryLimitWarning
  | LogResourceWarning

text \<open>
  The operating system as one call of the executor meets it: which files \<open>open\<close> can
  open in which mode (otherwise it raises \<open>IOError\<close>), what \<open>subprocess.Popen\<close> does
  (the pid of the child, or the exception it raises), whether \<open>process.wait()\<close> is
  interrupted by \<open>KeyboardInterrupt\<close>, what \<open>os.killpg(os.getpgid(pid), SIGINT)\<close> raises
  if anything, whether the second \<open>process.wait()\<close> is interrupted, and the clock.
\<close>

record exec_env =
  openable :: "string \<Rightarrow> string \<Rightarrow> bool"
  popen :: "error + int"
  wait_interrupted :: bool
  killpg_error :: "error option"
  rewait_interrupted :: bool
  clock :: real

record ProcessRecord =
  p_pid :: int
  p_command :: string
  p_job_id :: "int option"
  p_start_time :: real
  p_background :: bool

text \<open>One step of the loop of \<open>_setup_redirects\<close> over \<open>redirects.items()\<close>.\<close>

definition setup_redirect ::
  "(string \<Rightarrow> string \<Rightarrow> bool) \<Rightarrow> string \<times> string
     \<Rightarrow> (stream option \<times> stream option \<times> stream option) \<times> message list
     \<Rightarrow> (stream option \<times> stream option \<times> stream option) \<times> message list" where
  "setup_redirect can_open item acc =
     (case (item, acc) of ((redir_type, filename), ((s_in, s_out, s_err), out)) \<Rightarrow>
        if redir_type = ''<'' then
          (if can_open filename ''r'' then ((Some (FileObject filename ''r''), s_out, s_err), out)
           else ((Some DEVNULL, s_out, s_err), out @ [CannotOpen filename]))
        else if redir_type = ''>'' then
          (if can_open filename ''w'' then ((s_in, Some (FileObject filename ''w''), s_err), out)
           else ((s_in, s_out, s_err), out @ [CannotCreate filename]))
        else if redir_type = ''>>'' then
          (if can_open filename ''a'' then ((s_in, Some (FileObject filename ''a''), s_err), out)
           else ((s_in, s_out, s_err), out @ [CannotOpen filename]))
        else if redir_type = ''2>'' then
          (if can_open filename ''w'' then ((s_in, s_out, Some (FileObject filename ''w'')), out)
           else ((s_in, s_out, s_err), out @ [CannotCreate filename]))
        else if redir_type = ''&>'' then
          (if can_open filename ''w'' then ((s_in, Some (FileObject filename ''w''), Some STDOUT), out)
           else ((s_in, s_out, s_err), out @ [CannotCreate filename]))
        else ((s_in, s_out, s_err), out))"

definition setup_redirects ::
  "(string \<Rightarrow> string \<Rightarrow> bool) \<Rightarrow> (string \<times> string) list
     \<Rightarrow> (stream option \<times> stream option \<times> stream option) \<times> message list" where
  "setup_redirects can_open redirs =
     foldl (\<lambda>acc item. setup_redirect can_open item acc) ((None, None, None), []) redirs"

text \<open>
  A statement of the \<open>finally\<close> block, \<open>if s and s != subprocess.PIPE: s.close()\<close>:
  the two integer constants are truthy and differ from \<open>PIPE\<close>, and an integer has no
  \<open>close\<close>.
\<close>

definition close_stream :: "stream option \<Rightarrow> error option" where
  "close_stream s =
     (case s of
        None \<Rightarrow> None
      | Some (FileObject _ _) \<Rightarrow> None
      | Some DEVNULL \<Rightarrow> Some AttributeError
      | Some STDOUT \<Rightarrow> Some AttributeError)"

text \<open>The \<open>finally\<close> block: the exception that leaves it, if any.\<close>

definition close_redirects :: "stream option \<times> stream option \<times> stream option \<Rightarrow> error option" where
  "close_redirects streams =
     (case streams of (s_in, s_out, s_err) \<Rightarrow>
        (case close_stream s_in of
           Some e \<Rightarrow> Some e
         | None \<Rightarrow>
        (case close_stream s_out of
           Some e \<Rightarrow> Some e
         | None \<Rightarrow> close_stream s_err)))"

text \<open>
  The \<open>except\<close> clauses of \<open>execute\<close>, for an exception raised in its \<open>try\<close> block:
  what is printed and logged, and what the \<open>try\<close> statement yields.
\<close>

definition execute_handlers :: "string \<Rightarrow> error \<Rightarrow> message list \<times> (error + int option)" where
  "execute_handlers c e =
     (if e = FileNotFoundError then ([CommandNotFound c], Inr None)
      else if e = PermissionError then ([PermissionDenied c], Inr None)
      else if is_Exception e then ([ErrorExecuting, LogExecutionError], Inr None)
      else ([], Inl e))"

text \<open>
  The \<open>try\<close> block of \<open>execute\<close> with its handlers: the messages, the new process
  table, and the value returned (the process handle, here its pid, or \<open>None\<close>) or the
  exception that is still raised.
\<close>

definition execute_body ::
  "exec_env \<Rightarrow> (int \<times> ProcessRecord) list \<Rightarrow> CommandDescriptor \<Rightarrow> int option
     \<Rightarrow> message list \<times> (int \<times> ProcessRecord) list \<times> (error + int option)" where
  "execute_body env procs cmd jid =
     (case popen env of
        Inl e \<Rightarrow> (fst (execute_handlers (d_command cmd) e), procs,
                   snd (execute_handlers (d_command cmd) e))
      | Inr pid \<Rightarrow>
          (let procs1 = AList.update pid
                 \<lparr> p_pid = pid,
                   p_command = concat (map (\<lambda>w. w @ '' '') (butlast (d_command cmd # d_args cmd)))
                               @ last (d_command cmd # d_args cmd),
                   p_job_id = jid, p_start_time = clock env,
                   p_background = d_background cmd \<rparr> procs
           in if d_background cmd then ([JobStarted jid pid], procs1, Inr (Some pid))
              else if \<not> wait_interrupted env then ([], procs1, Inr None)
              else (case killpg_error env of
                      None \<Rightarrow>
                        if rewait_interrupted env then ([], procs1, Inl KeyboardInterrupt)
                        else ([], procs1, Inr None)
                    | Some e \<Rightarrow>
                        if e = ProcessLookupError then
                          (if rewait_interrupted env then ([], procs1, Inl KeyboardInterrupt)
                           else ([], procs1, Inr None))
                        else (fst (execute_handlers (d_command cmd) e), procs1,
                              snd (execute_handlers (d_command cmd) e)))))"

text \<open>
  \<open>execute\<close>: the redirections are set up before the \<open>try\<close>; an exception raised by
  the \<open>finally\<close> block replaces the value or exception of the \<open>try\<close> statement.
\<close>

definition execute ::
  "exec_env \<Rightarrow> (int \<times> ProcessRecord) list \<Rightarrow> CommandDescriptor \<Rightarrow> int option
     \<Rightarrow> message list \<times> (int \<times> ProcessRecord) list \<times> (error + int option)" where
  "execute env procs cmd jid =
     (case setup_redirects (openable env) (d_redirects cmd) of (streams, out0) \<Rightarrow>
      case execute_body env procs cmd jid of (out1, procs1, res) \<Rightarrow>
        (out0 @ out1, procs1,
         (case close_redirects streams of
            Some e \<Rightarrow> Inl e
          | None \<Rightarrow> res)))"

text \<open>
  The \<open>psutil\<close> calls of \<open>execute_with_resources\<close>, each with the exception it raises if
  any: \<open>psutil.Process(pid)\<close>, \<open>cpu_affinity\<close>, \<open>rlimit\<close>, \<open>nice\<close>; and \<open>cpu_count()\<close>.
\<close>

record psutil_env =
  process_error :: "error option"
  cpu_count :: int
  affinity_error :: "error option"
  rlimit_error :: "error option"
  nice_error :: "error option"

text \<open>The entries of the \<open>resources\<close> dictionary that the function reads.\<close>

record Resources =
  r_cores :: "int option"
  r_memory :: "int option"
  r_priority :: "string option"

text \<open>
  The \<open>try\<close> statement of \<open>execute_with_resources\<close>, after the process exists:
  \<open>except psutil.NoSuchProcess: pass\<close> and \<open>except Exception\<close>, which logs a warning.
  The result is what is logged and the exception that is still raised, if any.
\<close>

definition limits_handlers :: "error \<Rightarrow> message list \<times> error option" where
  "limits_handlers e =
     (if e = NoSuchProcess then ([], None)
      else if is_Exception e then ([LogResourceWarning], None)
      else ([], Some e))"

definition apply_limits :: "psutil_env \<Rightarrow> Resources \<Rightarrow> message list \<times> error option" where
  "apply_limits ps res =
     (case process_error ps of
        Some e \<Rightarrow> limits_handlers e
      | None \<Rightarrow>
     (case (if (case r_cores res of None \<Rightarrow> False | Some c \<Rightarrow> c \<noteq> 0 \<and> c \<le> cpu_count ps)
            then affinity_error ps else None) of
        Some e \<Rightarrow> limits_handlers e
      | None \<Rightarrow>
     (case (if (case r_memory res of None \<Rightarrow> False | Some b \<Rightarrow> b \<noteq> 0)
            then (case rlimit_error ps of
                    None \<Rightarrow> ([], None)
                  | Some e \<Rightarrow> if is_Exception e then ([LogMemoryLimitWarning], None)
                              else ([], Some e))
            else ([], None)) of
        (out, Some e) \<Rightarrow> (out @ fst (limits_handlers e), snd (limits_handlers e))
      | (out, None) \<Rightarrow>
     (case (if (case r_priority res of None \<Rightarrow> False | Some p \<Rightarrow> p \<noteq> [])
            then nice_error ps else None) of
        Some e \<Rightarrow> (out @ fst (limits_handlers e), snd (limits_handlers e))
      | None \<Rightarrow> (out, None)))))"

text \<open>
  \<open>execute_with_resources\<close>: \<open>subprocess.Popen\<close> is called outside any \<open>try\<close>, so what
  it raises leaves the function.
\<close>

definition execute_with_resources ::
  "exec_env \<Rightarrow> psutil_env \<Rightarrow> CommandDescriptor \<Rightarrow> Resources
     \<Rightarrow> message list \<times> (error + int option)" where
  "execute_with_resources env ps cmd res =
     (case popen env of
        Inl e \<Rightarrow> ([], Inl e)
      | Inr pid \<Rightarrow>
          (case apply_limits ps res of
             (out, Some e) \<Rightarrow> (out, Inl e)
           | (out, None) \<Rightarrow> (out, Inr (Some pid))))"

text \<open>
  Concrete calls: a foreground \<open>ls\<close> whose output and errors go to \<open>out.txt\<close> with
  \<open>&>\<close>, every file openable; a machine where the program exists and the child is
  started with pid 4242 and never interrupted; and one where the program is missing.
\<close>

definition demo_cmd :: CommandDescriptor where
  "demo_cmd = \<lparr> d_command = ''ls'', d_args = [''-l''], d_redirects = [(''&>'', ''out.txt'')],
                d_background = False, d_pipe_from = False, d_pipe_to = False,
                d_raw = ''ls -l &> out.txt'' \<rparr>"

definition demo_plain_cmd :: CommandDescriptor where
  "demo_plain_cmd = \<lparr> d_command = ''nosuchprog'', d_args = [], d_redirects = [],
                d_background = True, d_pipe_from = False, d_pipe_to = False,
                d_raw = ''nosuchprog'' \<rparr>"

definition demo_env :: exec_env where
  "demo_env = \<lparr> openable = (\<lambda>f m. True), popen = Inr 4242, wait_interrupted = False,
                killpg_error = None, rewait_interrupted = False, clock = 100 \<rparr>"

definition demo_env_missing :: exec_env where
  "demo_env_missing = \<lparr> openable = (\<lambda>f m. True), popen = Inl FileNotFoundError,
                wait_interrupted = False, killpg_error = None, rewait_interrupted = False,
                clock = 100 \<rparr>"

definition demo_psutil :: psutil_env where
  "demo_psutil = \<lparr> process_error = None, cpu_count = 8, affinity_error = None,
                   rlimit_error = None, nice_error = None \<rparr>"

definition demo_resources :: Resources where
  "demo_resources = \<lparr> r_cores = Some 2, r_memory = None, r_priority = Some ''normal'' \<rparr>"

section \<open>Command parser (parser.py)\<close>

subsection \<open>Strings\<close>

definition lower_char :: "char \<Rightarrow> char" where
  "lower_char c =
     (case map_of (zip ''ABCDEFGHIJKLMNOPQRSTUVWXYZ'' ''abcdefghijklmnopqrstuvwxyz'') c of
        Some l \<Rightarrow> l
      | None \<Rightarrow> c)"

definition py_lower :: "string \<Rightarrow> string" where
  "py_lower s = map lower_char s"

text \<open>
  The characters below 256 that \<open>str.isspace\<close> accepts: tab to carriage return, the four
  separators 28 to 31, the space, next line (133) and no-break space (160).
\<close>

definition is_space :: "char \<Rightarrow> bool" where
  "is_space c = (of_char c \<in> {9, 10, 11, 12, 13, 28, 29, 30, 31, 32, 133, 160 :: nat})"

definition py_strip :: "string \<Rightarrow> string" where
  "py_strip s = rev (dropWhile is_space (rev (dropWhile is_space s)))"

text \<open>\<open>s.endswith(suffix)\<close> and \<open>s[:-n]\<close> for a positive \<open>n\<close>.\<close>

definition endswith :: "string \<Rightarrow> string \<Rightarrow> bool" where
  "endswith s suf = (length suf \<le> length s \<and> drop (length s - length suf) s = suf)"

definition drop_last :: "nat \<Rightarrow> string \<Rightarrow> string" where
  "drop_last n s = take (length s - n) s"

subsection \<open>The built-in \<open>float\<close> and \<open>int\<close>\<close>

text \<open>
  A Python float is modelled by the rational number it stands for, or an infinity with
  its sign (\<open>True\<close> for negative), or not-a-number.  Arithmetic is exact: the model agrees
  with binary64 wherever the values involved are representable, as are the integers up
  to \<open>2 ^ 53\<close> and their products with a power of two.
\<close>

datatype pyfloat = Finite rat | Infinity bool | NaN

definition digit_of :: "char \<Rightarrow> nat option" where
  "digit_of c = map_of (zip ''0123456789'' [0, 1, 2, 3, 4, 5, 6, 7, 8, 9]) c"

text \<open>
  A digit part of the grammar of \<open>float\<close>, \<open>digit (["_"] digit)*\<close>, spanning the whole
  string: its value and its number of digits.
\<close>

fun digits_acc :: "nat \<Rightarrow> nat \<Rightarrow> string \<Rightarrow> (nat \<times> nat) option" where
  "digits_acc v k [] = Some (v, k)"
| "digits_acc v k [c] =
     (case digit_of c of None \<Rightarrow> None | Some d \<Rightarrow> Some (10 * v + d, Suc k))"
| "digits_acc v k (c # c' # cs) =
     (if c = CHR ''_'' then
        (case digit_of c' of None \<Rightarrow> None | Some d \<Rightarrow> digits_acc (10 * v + d) (Suc k) cs)
      else
        (case digit_of c of None \<Rightarrow> None | Some d \<Rightarrow> digits_acc (10 * v + d) (Suc k) (c' # cs)))"

definition digitpart :: "string \<Rightarrow> (nat \<times> nat) option" where
  "digitpart s =
     (case s of
        [] \<Rightarrow> None
      | c # cs \<Rightarrow> (case digit_of c of None \<Rightarrow> None | Some d \<Rightarrow> digits_acc d 1 cs))"

text \<open>An optional sign: whether it is a minus, and the rest.\<close>

definition take_sign :: "string \<Rightarrow> bool \<times> string" where
  "take_sign s =
     (case s of
        [] \<Rightarrow> (False, [])
      | c # cs \<Rightarrow> if c = CHR ''-'' then (True, cs)
                  else if c = CHR ''+'' then (False, cs)
                  else (False, c # cs))"

text \<open>A string cut at the first character that satisfies \<open>P\<close>, if there is one.\<close>

definition cut_at :: "(char \<Rightarrow> bool) \<Rightarrow> string \<Rightarrow> string \<times> string option" where
  "cut_at P s =
     (case dropWhile (\<lambda>c. \<not> P c) s of
        [] \<Rightarrow> (s, None)
      | _ # rest \<Rightarrow> (takeWhile (\<lambda>c. \<not> P c) s, Some rest))"

text \<open>The mantissa \<open>digitpart ["." [digitpart]] | "." digitpart\<close>.\<close>

definition mantissa :: "string \<Rightarrow> rat option" where
  "mantissa s =
     (case cut_at (\<lambda>c. c = CHR ''.'') s of
        (ip, None) \<Rightarrow> map_option (\<lambda>(v, k). of_nat v) (digitpart ip)
      | (ip, Some fp) \<Rightarrow>
          if ip = [] \<and> fp = [] then None
          else (case (if ip = [] then Some (0, 0) else digitpart ip) of
                  None \<Rightarrow> None
                | Some (iv, _) \<Rightarrow>
                    (case (if fp = [] then Some (0, 0) else digitpart fp) of
                       None \<Rightarrow> None
                     | Some (fv, fk) \<Rightarrow> Some (of_nat iv + of_nat fv / 10 ^ fk))))"

text \<open>The exponent after \<open>e\<close> or \<open>E\<close>: an optional sign and a digit part.\<close>

definition exponent :: "string \<Rightarrow> int option" where
  "exponent s =
     (case take_sign s of (neg, ds) \<Rightarrow>
        map_option (\<lambda>(v, k). if neg then - int v else int v) (digitpart ds))"

definition scale10 :: "rat \<Rightarrow> int \<Rightarrow> rat" where
  "scale10 m e = (if 0 \<le> e then m * 10 ^ nat e else m / 10 ^ nat (- e))"

text \<open>
  \<open>float(s)\<close> for a string: surrounding whitespace is ignored; \<open>inf\<close>, \<open>infinity\<close> and
  \<open>nan\<close> are accepted in any case, with a sign; anything outside the grammar raises
  \<open>ValueError\<close>.
\<close>

definition py_float :: "string \<Rightarrow> error + pyfloat" where
  "py_float s =
     (case take_sign (py_strip s) of (neg, u) \<Rightarrow>
        if py_lower u = ''inf'' \<or> py_lower u = ''infinity'' then Inr (Infinity neg)
        else if py_lower u = ''nan'' then Inr NaN
        else (case cut_at (\<lambda>c. c = CHR ''e'' \<or> c = CHR ''E'') u of (ms, es) \<Rightarrow>
                (case mantissa ms of
                   None \<Rightarrow> Inl ValueError
                 | Some m \<Rightarrow>
                     (case (case es of None \<Rightarrow> Some 0 | Some e \<Rightarrow> exponent e) of
                        None \<Rightarrow> Inl ValueError
                      | Some e \<Rightarrow> Inr (Finite (if neg then - scale10 m e else scale10 m e))))))"

text \<open>The product of a float and an \<open>int\<close>.\<close>

definition float_times :: "pyfloat \<Rightarrow> int \<Rightarrow> pyfloat" where
  "float_times x n =
     (case x of
        Finite r \<Rightarrow> Finite (r * of_int n)
      | Infinity neg \<Rightarrow> if n = 0 then NaN else Infinity (if n < 0 then \<not> neg else neg)
      | NaN \<Rightarrow> NaN)"

text \<open>
  \<open>int(x)\<close> for a float truncates towards zero, and raises \<open>OverflowError\<close> on an
  infinity and \<open>ValueError\<close> on not-a-number.
\<close>

definition py_int :: "pyfloat \<Rightarrow> error + int" where
  "py_int x =
     (case x of
        Finite r \<Rightarrow> Inr (if 0 \<le> r then \<lfloor>r\<rfloor> else \<lceil>r\<rceil>)
      | Infinity _ \<Rightarrow> Inl OverflowError
      | NaN \<Rightarrow> Inl ValueError)"

subsection \<open>\<open>_parse_memory\<close>\<close>

text \<open>The \<open>units\<close> dictionary, in its order.\<close>

definition units :: "(string \<times> int) list" where
  "units = [(''B'', 1), (''KB'', 1024), (''MB'', 1024 ^ 2), (''GB'', 1024 ^ 3), (''TB'', 1024 ^ 4)]"

text \<open>\<open>int(float(text) * multiplier)\<close>.\<close>

definition scaled_int :: "string \<Rightarrow> int \<Rightarrow> error + int" where
  "scaled_int text multiplier =
     (case py_float text of
        Inl e \<Rightarrow> Inl e
      | Inr v \<Rightarrow> py_int (float_times v multiplier))"

text \<open>
  The loop over the units: \<open>Some\<close> what the loop returns or raises, \<open>None\<close> when it
  runs to its end.  \<open>except ValueError: pass\<close> lets every other exception through.
\<close>

fun try_units :: "string \<Rightarrow> (string \<times> int) list \<Rightarrow> (error + int) option" where
  "try_units s [] = None"
| "try_units s ((unit, multiplier) # rest) =
     (if endswith s unit then
        (case scaled_int (drop_last (length unit) s) multiplier of
           Inl e \<Rightarrow> if e = ValueError then try_units s rest else Some (Inl e)
         | Inr n \<Rightarrow> Some (Inr n))
      else try_units s rest)"

definition parse_memory :: "string \<Rightarrow> error + int" where
  "parse_memory mem_str =
     (let s = py_upper mem_str
      in case try_units s units of
           Some r \<Rightarrow> r
         | None \<Rightarrow>
             (case scaled_int s (1024 ^ 2) of
                Inl e \<Rightarrow> if e = ValueError then Inr 0 else Inl e
              | Inr n \<Rightarrow> Inr n))"




subsection \<open>Library functions on strings\<close>

text \<open>\<open>str.split()\<close> without argument: the maximal runs of characters that are not whitespace.\<close>

fun words_acc :: "string \<Rightarrow> string \<Rightarrow> string list" where
  "words_acc cur [] = (if cur = [] then [] else [cur])"
| "words_acc cur (c # cs) =
     (if is_space c then (if cur = [] then words_acc [] cs else cur # words_acc [] cs)
      else words_acc (cur @ [c]) cs)"

definition py_split :: "string \<Rightarrow> string list" where
  "py_split s = words_acc [] s"

text \<open>
  \<open>s.replace(old, '')\<close>: the occurrences of \<open>old\<close> are removed from left to right,
  without overlap; an empty \<open>old\<close> changes nothing.
\<close>

fun remove_all :: "string \<Rightarrow> string \<Rightarrow> string" where
  "remove_all old [] = []"
| "remove_all old (c # cs) =
     (if old \<noteq> [] \<and> take (length old) (c # cs) = old
      then remove_all old (drop (length old) (c # cs))
      else c # remove_all old cs)"

text \<open>
  \<open>shlex.split(s)\<close> of the standard library, that is \<open>shlex.shlex(s, posix=True)\<close> with
  \<open>whitespace_split = True\<close> and no comment characters, read to its end.  The lexer is
  a state machine over the characters: between tokens, inside a word, inside a quote
  opened by the given character, or after a backslash (met outside quotes, or inside the
  given quote).  Its whitespace is blank, tab, carriage return and newline; inside
  double quotes a backslash escapes only a double quote or a backslash.  An input that
  ends inside a quote or after a backslash raises \<open>ValueError\<close>.
\<close>

datatype lex_state = Between | InWord | InQuote char | AfterEscape "char option"

definition shlex_whitespace :: "char \<Rightarrow> bool" where
  "shlex_whitespace c = (c \<in> set [CHR '' '', CHR 0x09, CHR 0x0D, CHR 0x0A])"

definition shlex_quote :: "char \<Rightarrow> bool" where
  "shlex_quote c = (c = CHR 0x27 \<or> c = CHR 0x22)"

definition shlex_escape :: "char \<Rightarrow> bool" where
  "shlex_escape c = (c = CHR 0x5C)"

fun shlex_run :: "lex_state \<Rightarrow> string \<Rightarrow> string \<Rightarrow> error + string list" where
  "shlex_run Between tok [] = Inr []"
| "shlex_run InWord tok [] = Inr [tok]"
| "shlex_run (InQuote q) tok [] = Inl ValueError"
| "shlex_run (AfterEscape es) tok [] = Inl ValueError"
| "shlex_run Between tok (c # cs) =
     (if shlex_whitespace c then shlex_run Between [] cs
      else if shlex_escape c then shlex_run (AfterEscape None) [] cs
      else if shlex_quote c then shlex_run (InQuote c) [] cs
      else shlex_run InWord [c] cs)"
| "shlex_run InWord tok (c # cs) =
     (if shlex_whitespace c then
        (case shlex_run Between [] cs of Inl e \<Rightarrow> Inl e | Inr toks \<Rightarrow> Inr (tok # toks))
      else if shlex_quote c then shlex_run (InQuote c) tok cs
      else if shlex_escape c then shlex_run (AfterEscape None) tok cs
      else shlex_run InWord (tok @ [c]) cs)"
| "shlex_run (InQuote q) tok (c # cs) =
     (if c = q then shlex_run InWord tok cs
      else if shlex_escape c \<and> q = CHR 0x22 then shlex_run (AfterEscape (Some q)) tok cs
      else shlex_run (InQuote q) (tok @ [c]) cs)"
| "shlex_run (AfterEscape es) tok (c # cs) =
     (case es of
        None \<Rightarrow> shlex_run InWord (tok @ [c]) cs
      | Some q \<Rightarrow>
          shlex_run (InQuote q)
            ((if \<not> shlex_escape c \<and> c \<noteq> q then tok @ [CHR 0x5C] else tok) @ [c]) cs)"

definition shlex_split :: "string \<Rightarrow> error + string list" where
  "shlex_split s = shlex_run Between [] s"

subsection \<open>The redirection pattern\<close>

text \<open>
  \<open>redirect_pattern.finditer(s)\<close> for the pattern \<open>(>>?|<|2>|&>)\<close>: the matches from
  left to right, each as the text it matched and the text that follows it
  (\<open>match.group(1)\<close> and \<open>s[match.end():]\<close>, all that the parser uses of a match).
\<close>

fun find_redirects :: "string \<Rightarrow> (string \<times> string) list" where
  "find_redirects [] = []"
| "find_redirects [c] =
     (if c = CHR ''>'' then [(''>'', [])] else if c = CHR ''<'' then [(''<'', [])] else [])"
| "find_redirects (c # d # cs) =
     (if c = CHR ''>'' then
        (if d = CHR ''>'' then (''>>'', cs) # find_redirects cs
         else (''>'', d # cs) # find_redirects (d # cs))
      else if c = CHR ''<'' then (''<'', d # cs) # find_redirects (d # cs)
      else if c = CHR ''2'' \<and> d = CHR ''>'' then (''2>'', cs) # find_redirects cs
      else if c = CHR ''&'' \<and> d = CHR ''>'' then (''&>'', cs) # find_redirects cs
      else find_redirects (d # cs))"

text \<open>\<open>redirect_pattern.sub('', s)\<close>: the text without the matches.\<close>

fun strip_redirects :: "string \<Rightarrow> string" where
  "strip_redirects [] = []"
| "strip_redirects [c] = (if c = CHR ''>'' \<or> c = CHR ''<'' then [] else [c])"
| "strip_redirects (c # d # cs) =
     (if c = CHR ''>'' then
        (if d = CHR ''>'' then strip_redirects cs else strip_redirects (d # cs))
      else if c = CHR ''<'' then strip_redirects (d # cs)
      else if c = CHR ''2'' \<and> d = CHR ''>'' then strip_redirects cs
      else if c = CHR ''&'' \<and> d = CHR ''>'' then strip_redirects cs
      else c # strip_redirects (d # cs))"

subsection \<open>\<open>_parse_single_command\<close>\<close>

text \<open>
  The body of the loop over the matches: the filename that the match records, if any.
  \<open>except ValueError: pass\<close> lets any other exception through.
\<close>

definition filename_after :: "string \<Rightarrow> error + string option" where
  "filename_after after =
     (let rest = py_strip after
      in if rest = [] then Inr None
         else (case shlex_split rest of
                 Inl e \<Rightarrow> if e = ValueError then Inr None else Inl e
               | Inr [] \<Rightarrow> Inr None
               | Inr (filename # _) \<Rightarrow> Inr (Some filename)))"

text \<open>The loop, over the matches in the order in which it visits them.\<close>

fun collect_redirects ::
  "(string \<times> string) list \<Rightarrow> (string \<times> string) list \<Rightarrow> error + (string \<times> string) list" where
  "collect_redirects [] redirects = Inr redirects"
| "collect_redirects ((redirect_type, after) # ms) redirects =
     (case filename_after after of
        Inl e \<Rightarrow> Inl e
      | Inr None \<Rightarrow> collect_redirects ms redirects
      | Inr (Some filename) \<Rightarrow>
          collect_redirects ms (AList.update redirect_type filename redirects))"

text \<open>
  The first half of \<open>_parse_single_command\<close>: the \<open>redirects\<close> dictionary and the
  \<open>remaining\<close> text.  The matches are visited from right to left
  (\<open>reversed(redirect_matches)\<close>).
\<close>

definition extract_redirects :: "string \<Rightarrow> error + ((string \<times> string) list \<times> string)" where
  "extract_redirects cmd_str =
     (let redirect_matches = find_redirects cmd_str
      in if redirect_matches = [] then Inr ([], cmd_str)
         else (case collect_redirects (rev redirect_matches) [] of
                 Inl e \<Rightarrow> Inl e
               | Inr redirects \<Rightarrow>
                   Inr (redirects,
                        foldl (\<lambda>remaining filename. remove_all filename remaining)
                          (strip_redirects cmd_str) (dict_values redirects))))"

text \<open>
  The second half: the tokens of \<open>remaining\<close>, by \<open>shlex.split\<close> or, when that raises
  \<open>ValueError\<close>, by \<open>str.split\<close>.
\<close>

definition tokenize :: "string \<Rightarrow> error + string list" where
  "tokenize remaining =
     (case shlex_split remaining of
        Inl e \<Rightarrow> if e = ValueError then Inr (py_split remaining) else Inl e
      | Inr tokens \<Rightarrow> Inr tokens)"

definition parse_single_command :: "string \<Rightarrow> error + CommandDescriptor" where
  "parse_single_command cmd_str =
     (case extract_redirects cmd_str of
        Inl e \<Rightarrow> Inl e
      | Inr (redirects, remaining) \<Rightarrow>
          (case tokenize remaining of
             Inl e \<Rightarrow> Inl e
           | Inr [] \<Rightarrow>
               Inr \<lparr> d_command = [], d_args = [], d_redirects = redirects,
                     d_background = False, d_pipe_from = False, d_pipe_to = False,
                     d_raw = cmd_str \<rparr>
           | Inr (t # ts) \<Rightarrow>
               Inr \<lparr> d_command = t, d_args = ts, d_redirects = redirects,
                     d_background = False, d_pipe_from = False, d_pipe_to = False,
                     d_raw = cmd_str \<rparr>))"

subsection \<open>\<open>_split_pipes\<close> and \<open>parse\<close>\<close>

text \<open>
  The loop of \<open>_split_pipes\<close>: \<open>prev\<close> is \<open>line[i-1]\<close>, or \<open>None\<close> when \<open>i = 0\<close>;
  \<open>quote_char\<close> is \<open>None\<close> outside quotes.  After the loop a non-empty \<open>current\<close> is
  appended.
\<close>

fun split_pipes_loop ::
  "char option \<Rightarrow> char option \<Rightarrow> string \<Rightarrow> string list \<Rightarrow> string \<Rightarrow> string list" where
  "split_pipes_loop prev quote_char current parts [] =
     (if current \<noteq> [] then parts @ [py_strip current] else parts)"
| "split_pipes_loop prev quote_char current parts (c # cs) =
     (let quote_char1 =
            (if shlex_quote c \<and> prev \<noteq> Some (CHR 0x5C) then
               (case quote_char of
                  None \<Rightarrow> Some c
                | Some q \<Rightarrow> if c = q then None else Some q)
             else quote_char)
      in if c = CHR ''|'' \<and> quote_char1 = None then
           (if current \<noteq> [] then
              split_pipes_loop (Some c) quote_char1 [] (parts @ [py_strip current]) cs
            else split_pipes_loop (Some c) quote_char1 current parts cs)
         else split_pipes_loop (Some c) quote_char1 (current @ [c]) parts cs)"

definition split_pipes :: "string \<Rightarrow> string list" where
  "split_pipes line = split_pipes_loop None None [] [] line"

text \<open>The loop of \<open>parse\<close> over \<open>enumerate(pipe_parts)\<close>; \<open>n\<close> is \<open>len(pipe_parts)\<close>.\<close>

fun parse_parts :: "bool \<Rightarrow> nat \<Rightarrow> nat \<Rightarrow> string list \<Rightarrow> error + CommandDescriptor list" where
  "parse_parts bg n i [] = Inr []"
| "parse_parts bg n i (part # parts) =
     (case parse_single_command part of
        Inl e \<Rightarrow> Inl e
      | Inr cmd \<Rightarrow>
          (case parse_parts bg n (Suc i) parts of
             Inl e \<Rightarrow> Inl e
           | Inr cmds \<Rightarrow>
               Inr (cmd\<lparr> d_background := bg \<and> Suc i = n, d_pipe_from := 0 < i,
                         d_pipe_to := Suc i < n \<rparr> # cmds)))"

definition parse :: "string \<Rightarrow> error + CommandDescriptor list" where
  "parse line =
     (let line1 = py_strip line
      in if line1 = [] then Inr []
         else (let background = endswith line1 ''&'';
                   line2 = (if background then py_strip (butlast line1) else line1);
                   pipe_parts = split_pipes line2
               in parse_parts background (length pipe_parts) 0 pipe_parts))"

text \<open>The filename that the loop body takes from the text after a match, if any.\<close>

definition extracted :: "string \<Rightarrow> string option" where
  "extracted after =
     (case filename_after after of Inr (Some filename) \<Rightarrow> Some filename | _ \<Rightarrow> None)"

text \<open>
  Among the matches from left to right, the filename of the first match of the given
  redirection type that yields a filename.
\<close>

fun recorded :: "string \<Rightarrow> (string \<times> string) list \<Rightarrow> string option" where
  "recorded ty [] = None"
| "recorded ty ((t, after) # ms) =
     (if t = ty then
        (case extracted after of
           Some filename \<Rightarrow> Some filename
         | None \<Rightarrow> recorded ty ms)
      else recorded ty ms)"

text \<open>A command with an unbalanced double quote.\<close>

definition demo_unbalanced :: string where
  "demo_unbalanced = ''echo '' @ [CHR 0x22] @ ''hi''"

section \<open>Properties of the job queue\<close>

subsection \<open>What each operation does to the tables\<close>

lemma map_of_init_queues:
  "map_of (foldl (\<lambda>qs queue_name. AList.update queue_name [] qs) al names) q = Some ids
     \<Longrightarrow> ids = [] \<or> map_of al q = Some ids"
proof (induction names arbitrary: al)
  case Nil
  then show ?case by simp
next
  case (Cons a names)
  from Cons.prems
  have "map_of (foldl (\<lambda>qs queue_name. AList.update queue_name [] qs)
                  (AList.update a [] al) names) q = Some ids"
    by simp
  from Cons.IH[OF this] show ?case
    by (auto simp: update_conv' split: if_splits)
qed

lemma init_queue_empty:
  "map_of (queues (JobQueue_init names)) q = Some ids \<Longrightarrow> ids = []"
  unfolding JobQueue_init_def by (auto dest!: map_of_init_queues)

lemma map_of_remove_from_queues:
  "map_of (remove_from_queues jid qs) q = map_option (remove1 jid) (map_of qs q)"
  by (induction qs) (auto simp: remove_from_queues_def remove1_idem)



lemma submit_job_result:
  assumes "submit_job s now cmd as q prio n_cores mem = Inr (jid, s')"
  shows "jid = next_job_id s"
    and "next_job_id s' = next_job_id s + 1"
    and "\<exists>job. jobs s' = AList.update (next_job_id s) job (jobs s) \<and> status job = ''queued''
            \<and> created_at job = now
            \<and> priority job = (case Priority_lookup (py_upper prio) of Inr p \<Rightarrow> p | Inl _ \<Rightarrow> NORMAL)"
    and "map_of (queues s') =
           (map_of (queues s))(q \<mapsto> sort_key (sort_key_of (jobs s')) (queue_ids s q @ [next_job_id s]))"
  using assms
  unfolding submit_job_def sort_queue_def Let_def queue_ids_def dict_has_def
  by (auto simp: update_conv' split: option.splits if_splits sum.splits)

text \<open>On a state whose queues list known ids only, \<open>submit_job\<close> does not raise.\<close>

lemma submit_job_total:
  assumes "queued_known s"
  shows "\<exists>s'. submit_job s now cmd as q prio n_cores mem = Inr (next_job_id s, s')"
  using assms
  unfolding submit_job_def sort_queue_def Let_def queued_known_def dict_has_def
  by (fastforce simp: update_conv' split: option.splits if_splits sum.splits)

lemma queue_ids_known:
  "queued_known s \<Longrightarrow> jid \<in> set (queue_ids s q) \<Longrightarrow> dict_has (jobs s) jid"
  unfolding queued_known_def queue_ids_def by (cases "map_of (queues s) q") auto

subsection \<open>Preservation of the invariants\<close>

lemma ids_bounded_start: "ids_bounded s \<Longrightarrow> ids_bounded (snd (start_job s now jid))"
  unfolding ids_bounded_def start_job_def
  by (auto simp: update_conv' split: option.splits if_splits)

lemma ids_bounded_complete: "ids_bounded s \<Longrightarrow> ids_bounded (snd (complete_job s now jid rc))"
  unfolding ids_bounded_def complete_job_def
  by (auto simp: update_conv' split: option.splits if_splits)

lemma ids_bounded_cancel: "ids_bounded s \<Longrightarrow> ids_bounded (snd (cancel_job s jid))"
  unfolding ids_bounded_def cancel_job_def
  by (auto simp: update_conv' split: option.splits if_splits)

lemma ids_bounded_submit:
  assumes "ids_bounded s" "submit_job s now cmd as q prio n_cores mem = Inr (jid, s')"
  shows "ids_bounded s'"
proof -
  from submit_job_result(3)[OF assms(2)] obtain job where
    j: "jobs s' = AList.update (next_job_id s) job (jobs s)" by blast
  show ?thesis
    using assms(1) submit_job_result(2)[OF assms(2)]
    unfolding ids_bounded_def j
    by (fastforce simp: update_conv' split: if_splits)
qed

lemma queued_known_start: "queued_known s \<Longrightarrow> queued_known (snd (start_job s now jid))"
  unfolding queued_known_def start_job_def dict_has_def
  by (auto simp: update_conv' split: option.splits if_splits)

lemma queued_known_complete:
  "queued_known s \<Longrightarrow> queued_known (snd (complete_job s now jid rc))"
  unfolding queued_known_def complete_job_def dict_has_def
  by (auto simp: update_conv' map_of_remove_from_queues split: option.splits if_splits
           dest: notin_set_remove1)

lemma queued_known_cancel: "queued_known s \<Longrightarrow> queued_known (snd (cancel_job s jid))"
  unfolding queued_known_def cancel_job_def dict_has_def
  by (auto simp: update_conv' map_of_remove_from_queues split: option.splits if_splits
           dest: notin_set_remove1)

lemma queued_known_submit:
  assumes "queued_known s" "submit_job s now cmd as q prio n_cores mem = Inr (jid, s')"
  shows "queued_known s'"
proof -
  from submit_job_result(3)[OF assms(2)] obtain job where
    j: "jobs s' = AList.update (next_job_id s) job (jobs s)" by blast
  note qs = submit_job_result(4)[OF assms(2)]
  show ?thesis
    unfolding queued_known_def
  proof (intro allI impI)
    fix q' ids k
    assume a: "map_of (queues s') q' = Some ids" "k \<in> set ids"
    show "dict_has (jobs s') k"
    proof (cases "q' = q")
      case True
      with a qs have "k \<in> set (queue_ids s q) \<or> k = next_job_id s" by auto
      then show ?thesis
        using queue_ids_known[OF assms(1)] unfolding dict_has_def j
        by (auto simp: update_conv')
    next
      case False
      with a qs have "map_of (queues s) q' = Some ids" by auto
      with assms(1) a(2) have "dict_has (jobs s) k" unfolding queued_known_def by blast
      then show ?thesis unfolding dict_has_def j by (auto simp: update_conv')
    qed
  qed
qed

lemma status_known_start: "status_known s \<Longrightarrow> status_known (snd (start_job s now jid))"
  unfolding status_known_def start_job_def
  by (auto simp: update_conv' split: option.splits if_splits)

lemma status_known_complete:
  "status_known s \<Longrightarrow> status_known (snd (complete_job s now jid rc))"
  unfolding status_known_def complete_job_def
  by (auto simp: update_conv' split: option.splits if_splits)

lemma status_known_cancel: "status_known s \<Longrightarrow> status_known (snd (cancel_job s jid))"
  unfolding status_known_def cancel_job_def
  by (auto simp: update_conv' split: option.splits if_splits)

lemma status_known_submit:
  assumes "status_known s" "submit_job s now cmd as q prio n_cores mem = Inr (jid, s')"
  shows "status_known s'"
proof -
  from submit_job_result(3)[OF assms(2)] obtain job where
    j: "jobs s' = AList.update (next_job_id s) job (jobs s)" "status job = ''queued''" by blast
  show ?thesis
    using assms(1) j(2)
    unfolding status_known_def j(1)
    by (auto simp: update_conv' split: if_splits)
qed





lemma reachable_ids_bounded: "reachable s \<Longrightarrow> ids_bounded s"
proof (induction rule: reachable.induct)
  case (r_init queue_names)
  show ?case by (simp add: ids_bounded_def JobQueue_init_def)
qed (auto intro: ids_bounded_submit ids_bounded_start ids_bounded_complete ids_bounded_cancel)

lemma reachable_queued_known: "reachable s \<Longrightarrow> queued_known s"
proof (induction rule: reachable.induct)
  case (r_init queue_names)
  show ?case unfolding queued_known_def by (auto dest: init_queue_empty)
qed (auto intro: queued_known_submit queued_known_start queued_known_complete
       queued_known_cancel)

lemma reachable_status_known: "reachable s \<Longrightarrow> status_known s"
proof (induction rule: reachable.induct)
  case (r_init queue_names)
  show ?case by (simp add: status_known_def JobQueue_init_def)
qed (auto intro: status_known_submit status_known_start status_known_complete
       status_known_cancel)


lemma reachable_keys_distinct: "reachable s \<Longrightarrow> keys_distinct s"
proof (induction rule: reachable.induct)
  case (r_init queue_names)
  show ?case by (simp add: keys_distinct_def JobQueue_init_def)
next
  case (r_submit s now cmd as q prio n_cores mem jid s')
  from submit_job_result(3)[OF r_submit.hyps(2)] r_submit.IH show ?case
    unfolding keys_distinct_def by (auto simp: distinct_update)
next
  case (r_start s now jid)
  then show ?case unfolding keys_distinct_def start_job_def
    by (auto simp: distinct_update split: option.splits)
next
  case (r_complete s now jid rc)
  then show ?case unfolding keys_distinct_def complete_job_def
    by (auto simp: distinct_update split: option.splits)
next
  case (r_cancel s jid)
  then show ?case unfolding keys_distinct_def cancel_job_def
    by (auto simp: distinct_update split: option.splits)
qed

subsection \<open>The concrete run, evaluated\<close>

lemmas queue_eval = submit_job_def JobQueue_init_def sort_queue_def dict_has_def
  Priority_lookup_def py_upper_def upper_char_def Let_def start_job_def complete_job_def
  cancel_job_def remove_from_queues_def sort_key_of_def queue_ids_def get_job_def

lemma demo_submit_1:
  "submit_job demo_s0 10 ''sim'' [''a''] ''default'' ''low'' 1 ''1GB'' = Inr (1, demo_s1)"
  by (simp add: demo_s1_def demo_s0_def queue_eval)

lemma demo_submit_2:
  "submit_job demo_s1 11 ''sim'' [''b''] ''default'' ''high'' 1 ''1GB'' = Inr (2, demo_s2)"
  by (simp add: demo_s2_def demo_s1_def demo_s0_def queue_eval)

lemma demo_submit_3:
  "submit_job demo_s2 12 ''sim'' [''c''] ''default'' ''normal'' 1 ''1GB'' = Inr (3, demo_s3)"
  by (simp add: demo_s3_def demo_s2_def demo_s1_def demo_s0_def queue_eval)

lemma demo_submit_f1:
  "submit_job demo_s0 10 ''sim'' [''a''] ''default'' ''normal'' 1 ''1GB'' = Inr (1, demo_f1)"
  by (simp add: demo_f1_def demo_s0_def queue_eval)


lemma reachable_demo_s0: "reachable demo_s0"
  unfolding demo_s0_def by (rule reachable.r_init)

lemma reachable_demo_s1: "reachable demo_s1"
  using reachable_demo_s0 demo_submit_1 by (rule reachable.r_submit)

lemma reachable_demo_s2: "reachable demo_s2"
  using reachable_demo_s1 demo_submit_2 by (rule reachable.r_submit)

lemma reachable_demo_s3: "reachable demo_s3"
  using reachable_demo_s2 demo_submit_3 by (rule reachable.r_submit)

lemma reachable_demo_f1: "reachable demo_f1"
  using reachable_demo_s0 demo_submit_f1 by (rule reachable.r_submit)

lemma reachable_demo_completed: "reachable demo_completed"
  unfolding demo_completed_def using reachable_demo_s1 by (rule reachable.r_complete)

lemma reachable_demo_cancelled: "reachable demo_cancelled"
  unfolding demo_cancelled_def using reachable_demo_s1 by (rule reachable.r_cancel)

lemma reachable_demo_running: "reachable demo_running"
  unfolding demo_running_def using reachable_demo_s1 by (rule reachable.r_start)

lemma demo_s1_job: "map_option status (get_job demo_s1 1) = Some ''queued''"
  by (simp add: demo_s1_def demo_s0_def queue_eval)

lemma demo_completed_job: "map_option status (get_job demo_completed 1) = Some ''completed''"
  by (simp add: demo_completed_def demo_s1_def demo_s0_def queue_eval)

lemma demo_cancelled_job: "map_option status (get_job demo_cancelled 1) = Some ''cancelled''"
  by (simp add: demo_cancelled_def demo_s1_def demo_s0_def queue_eval)

lemma demo_running_job: "map_option status (get_job demo_running 1) = Some ''running''"
  by (simp add: demo_running_def demo_s1_def demo_s0_def queue_eval)

subsection \<open>Submission order under a clock that does not go backwards\<close>

















subsection \<open>Jobs that left their queue\<close>

lemma distinct_init_queues:
  "distinct (map fst al) \<Longrightarrow>
     distinct (map fst (foldl (\<lambda>qs queue_name. AList.update queue_name [] qs) al names))"
  by (induction names arbitrary: al) (simp_all add: distinct_update)

lemma distinct_remove_from_queues: "map fst (remove_from_queues jid qs) = map fst qs"
  by (induction qs) (auto simp: remove_from_queues_def)

lemma queue_ids_distinct_init: "queue_ids_distinct (JobQueue_init names)"
  unfolding queue_ids_distinct_def by (auto dest: init_queue_empty)

lemma queue_ids_distinct_start:
  "queue_ids_distinct s \<Longrightarrow> queue_ids_distinct (snd (start_job s now jid))"
  unfolding queue_ids_distinct_def start_job_def by (auto split: option.splits)

lemma queue_ids_distinct_complete:
  "queue_ids_distinct s \<Longrightarrow> queue_ids_distinct (snd (complete_job s now jid rc))"
  unfolding queue_ids_distinct_def complete_job_def
  by (auto simp: map_of_remove_from_queues split: option.splits)

lemma queue_ids_distinct_cancel:
  "queue_ids_distinct s \<Longrightarrow> queue_ids_distinct (snd (cancel_job s jid))"
  unfolding queue_ids_distinct_def cancel_job_def
  by (auto simp: map_of_remove_from_queues split: option.splits)

lemma submit_job_queue_keys:
  assumes "submit_job s now cmd as q prio n_cores mem = Inr (jid, s')"
    and "distinct (map fst (queues s))"
  shows "distinct (map fst (queues s'))"
  using assms
  unfolding submit_job_def sort_queue_def Let_def dict_has_def
  by (auto simp: update_conv' distinct_update split: option.splits if_splits sum.splits)

lemma queue_ids_distinct_submit:
  assumes "queue_ids_distinct s" "queued_known s" "ids_bounded s"
    and "submit_job s now cmd as q prio n_cores mem = Inr (jid, s')"
  shows "queue_ids_distinct s'"
proof -
  note qs = submit_job_result(4)[OF assms(4)]
  have fresh: "next_job_id s \<notin> set (queue_ids s q)"
  proof
    assume "next_job_id s \<in> set (queue_ids s q)"
    from queue_ids_known[OF assms(2) this] obtain j where "map_of (jobs s) (next_job_id s) = Some j"
      unfolding dict_has_def by auto
    with assms(3) show False unfolding ids_bounded_def by fastforce
  qed
  have d0: "distinct (queue_ids s q)"
    using assms(1) unfolding queue_ids_distinct_def queue_ids_def
    by (cases "map_of (queues s) q") auto
  show ?thesis unfolding queue_ids_distinct_def
  proof (intro allI impI)
    fix q' ids
    assume a: "map_of (queues s') q' = Some ids"
    show "distinct ids"
    proof (cases "q' = q")
      case True
      with a qs have "ids = sort_key (sort_key_of (jobs s')) (queue_ids s q @ [next_job_id s])"
        by auto
      then show ?thesis using d0 fresh by simp
    next
      case False
      with a qs have "map_of (queues s) q' = Some ids" by auto
      with assms(1) show ?thesis unfolding queue_ids_distinct_def by blast
    qed
  qed
qed

lemma reachable_queue_names_distinct: "reachable s \<Longrightarrow> queue_names_distinct s"
proof (induction rule: reachable.induct)
  case (r_init queue_names)
  show ?case unfolding queue_names_distinct_def JobQueue_init_def
    by (simp add: distinct_init_queues)
next
  case (r_submit s now cmd as q prio n_cores mem jid s')
  then show ?case unfolding queue_names_distinct_def using submit_job_queue_keys by blast
next
  case (r_start s now jid)
  then show ?case unfolding queue_names_distinct_def start_job_def
    by (auto split: option.splits)
next
  case (r_complete s now jid rc)
  then show ?case unfolding queue_names_distinct_def complete_job_def
    by (auto simp: distinct_remove_from_queues split: option.splits)
next
  case (r_cancel s jid)
  then show ?case unfolding queue_names_distinct_def cancel_job_def
    by (auto simp: distinct_remove_from_queues split: option.splits)
qed

lemma reachable_queue_ids_distinct: "reachable s \<Longrightarrow> queue_ids_distinct s"
proof (induction rule: reachable.induct)
  case (r_init queue_names)
  show ?case by (rule queue_ids_distinct_init)
next
  case (r_submit s now cmd as q prio n_cores mem jid s')
  then show ?case
    by (auto intro: queue_ids_distinct_submit reachable_queued_known reachable_ids_bounded)
qed (auto intro: queue_ids_distinct_start queue_ids_distinct_complete queue_ids_distinct_cancel)

lemma queued_live_start: "queued_live s \<Longrightarrow> queued_live (snd (start_job s now jid))"
  unfolding queued_live_def start_job_def
  by (auto simp: update_conv' split: option.splits if_splits)

lemma queued_live_complete:
  assumes "queued_live s" "queue_ids_distinct s"
  shows "queued_live (snd (complete_job s now jid rc))"
proof (cases "map_of (jobs s) jid")
  case None
  then show ?thesis using assms(1) by (simp add: complete_job_def)
next
  case (Some job)
  show ?thesis unfolding queued_live_def
  proof (intro allI impI)
    fix q ids k j
    assume a: "map_of (queues (snd (complete_job s now jid rc))) q = Some ids" "k \<in> set ids"
      "map_of (jobs (snd (complete_job s now jid rc))) k = Some j"
    from a(1) Some obtain ids0 where i: "map_of (queues s) q = Some ids0" "ids = remove1 jid ids0"
      by (auto simp: complete_job_def map_of_remove_from_queues)
    from assms(2) i(1) have "distinct ids0" unfolding queue_ids_distinct_def by blast
    with a(2) i(2) have k: "k \<noteq> jid" "k \<in> set ids0" by auto
    with a(3) Some have "map_of (jobs s) k = Some j"
      by (simp add: complete_job_def update_conv')
    with assms(1) i(1) k(2) show "status j = ''queued'' \<or> status j = ''running''"
      unfolding queued_live_def by blast
  qed
qed

lemma queued_live_cancel:
  assumes "queued_live s" "queue_ids_distinct s"
  shows "queued_live (snd (cancel_job s jid))"
proof (cases "fst (cancel_job s jid)")
  case False
  then have "snd (cancel_job s jid) = s"
    by (auto simp: cancel_job_def split: option.splits if_splits)
  then show ?thesis using assms(1) by simp
next
  case True
  then obtain job where job: "map_of (jobs s) jid = Some job"
    "status job \<noteq> ''running''" "status job \<noteq> ''completed''"
    by (auto simp: cancel_job_def split: option.splits if_splits)
  show ?thesis unfolding queued_live_def
  proof (intro allI impI)
    fix q ids k j
    assume a: "map_of (queues (snd (cancel_job s jid))) q = Some ids" "k \<in> set ids"
      "map_of (jobs (snd (cancel_job s jid))) k = Some j"
    from a(1) job obtain ids0 where i: "map_of (queues s) q = Some ids0" "ids = remove1 jid ids0"
      by (auto simp: cancel_job_def map_of_remove_from_queues)
    from assms(2) i(1) have "distinct ids0" unfolding queue_ids_distinct_def by blast
    with a(2) i(2) have k: "k \<noteq> jid" "k \<in> set ids0" by auto
    with a(3) job have "map_of (jobs s) k = Some j"
      by (simp add: cancel_job_def update_conv')
    with assms(1) i(1) k(2) show "status j = ''queued'' \<or> status j = ''running''"
      unfolding queued_live_def by blast
  qed
qed

lemma queued_live_submit:
  assumes "queued_live s" "queued_known s" "ids_bounded s"
    and "submit_job s now cmd as q prio n_cores mem = Inr (jid, s')"
  shows "queued_live s'"
proof -
  from submit_job_result(3)[OF assms(4)] obtain job where
    j: "jobs s' = AList.update (next_job_id s) job (jobs s)" "status job = ''queued''" by blast
  note qs = submit_job_result(4)[OF assms(4)]
  show ?thesis unfolding queued_live_def
  proof (intro allI impI)
    fix q' ids k j0
    assume a: "map_of (queues s') q' = Some ids" "k \<in> set ids" "map_of (jobs s') k = Some j0"
    show "status j0 = ''queued'' \<or> status j0 = ''running''"
    proof (cases "k = next_job_id s")
      case True
      with a(3) j show ?thesis by (simp add: update_conv')
    next
      case False
      with a(3) j have old: "map_of (jobs s) k = Some j0" by (simp add: update_conv')
      have "\<exists>ids0. map_of (queues s) q' = Some ids0 \<and> k \<in> set ids0"
      proof (cases "q' = q")
        case True
        with a qs have "k \<in> set (queue_ids s q)" using False by auto
        then show ?thesis using True
          by (cases "map_of (queues s) q") (auto simp: queue_ids_def)
      next
        case False
        with a qs show ?thesis by auto
      qed
      with assms(1) old show ?thesis unfolding queued_live_def by blast
    qed
  qed
qed

lemma reachable_queued_live: "reachable s \<Longrightarrow> queued_live s"
proof (induction rule: reachable.induct)
  case (r_init queue_names)
  show ?case unfolding queued_live_def by (auto dest: init_queue_empty)
next
  case (r_submit s now cmd as q prio n_cores mem jid s')
  then show ?case
    by (auto intro: queued_live_submit reachable_queued_known reachable_ids_bounded)
next
  case (r_start s now jid)
  then show ?case by (auto intro: queued_live_start)
next
  case (r_complete s now jid rc)
  then show ?case by (auto intro: queued_live_complete reachable_queue_ids_distinct)
next
  case (r_cancel s jid)
  then show ?case by (auto intro: queued_live_cancel reachable_queue_ids_distinct)
qed

lemma remove_from_queues_absent:
  assumes "distinct (map fst qs)"
    and "\<forall>q ids. map_of qs q = Some ids \<longrightarrow> jid \<notin> set ids"
  shows "remove_from_queues jid qs = qs"
proof -
  have "\<forall>(q, ids) \<in> set qs. jid \<notin> set ids"
    using assms by (auto dest: map_of_is_SomeI)
  then show ?thesis
    unfolding remove_from_queues_def by (induction qs) auto
qed

lemma cancel_cancelled_job:
  assumes "reachable s" "get_job s jid = Some j" "status j = ''cancelled''"
  shows "cancel_job s jid = (True, s)"
proof -
  have "\<forall>q ids. map_of (queues s) q = Some ids \<longrightarrow> jid \<notin> set ids"
    using reachable_queued_live[OF assms(1)] assms(2,3)
    unfolding queued_live_def get_job_def by fastforce
  with reachable_queue_names_distinct[OF assms(1)]
  have q: "remove_from_queues jid (queues s) = queues s"
    unfolding queue_names_distinct_def by (intro remove_from_queues_absent) auto
  have "j\<lparr>status := ''cancelled''\<rparr> = j" using assms(3) by simp
  then have "AList.update jid (j\<lparr>status := ''cancelled''\<rparr>) (jobs s) = jobs s"
    using assms(2) by (simp add: get_job_def update_triv)
  with q show ?thesis using assms(2,3) by (simp add: cancel_job_def get_job_def)
qed


subsection \<open>Status changes\<close>


text \<open>
  Claim C1, as the code has it.  A job's status changes in these ways only:
  \<open>start_job\<close> sets the status of any existing job to running, whatever it was;
  \<open>complete_job\<close> sets the status of any existing job to completed, whatever it was;
  \<open>cancel_job\<close> sets it to cancelled unless it is running or completed; \<open>submit_job\<close>
  creates a new job as queued; and no operation changes the status of a job other than
  the one it is called on.
\<close>

theorem job_status_changes:
  assumes "reachable s" and "get_job s k = Some j"
  shows "map_option status (get_job (snd (start_job s now jid)) k)
           = Some (if jid = k then ''running'' else status j)
       \<and> map_option status (get_job (snd (complete_job s now jid rc)) k)
           = Some (if jid = k then ''completed'' else status j)
       \<and> map_option status (get_job (snd (cancel_job s jid)) k)
           = Some (if jid = k \<and> status j \<noteq> ''running'' \<and> status j \<noteq> ''completed''
                   then ''cancelled'' else status j)
       \<and> (\<forall>new s'. submit_job s now cmd as q prio n_cores mem = Inr (new, s') \<longrightarrow>
             new \<noteq> k \<and> map_option status (get_job s' k) = Some (status j)
             \<and> map_option status (get_job s' new) = Some ''queued'')"
proof -
  have 1: "map_option status (get_job (snd (start_job s now jid)) k)
           = Some (if jid = k then ''running'' else status j)"
    using assms(2) unfolding get_job_def start_job_def
    by (auto simp: update_conv' split: option.splits)
  have 2: "map_option status (get_job (snd (complete_job s now jid rc)) k)
           = Some (if jid = k then ''completed'' else status j)"
    using assms(2) unfolding get_job_def complete_job_def
    by (auto simp: update_conv' split: option.splits)
  have 3: "map_option status (get_job (snd (cancel_job s jid)) k)
           = Some (if jid = k \<and> status j \<noteq> ''running'' \<and> status j \<noteq> ''completed''
                   then ''cancelled'' else status j)"
    using assms(2) unfolding get_job_def cancel_job_def
    by (auto simp: update_conv' split: option.splits)
  have 4: "\<forall>new s'. submit_job s now cmd as q prio n_cores mem = Inr (new, s') \<longrightarrow>
             new \<noteq> k \<and> map_option status (get_job s' k) = Some (status j)
             \<and> map_option status (get_job s' new) = Some ''queued''"
  proof (intro allI impI)
    fix new s'
    assume sub: "submit_job s now cmd as q prio n_cores mem = Inr (new, s')"
    from submit_job_result(3)[OF sub] obtain job where
      jb: "jobs s' = AList.update (next_job_id s) job (jobs s)" "status job = ''queued''"
      by blast
    have "k < next_job_id s"
      using reachable_ids_bounded[OF assms(1)] assms(2)
      unfolding ids_bounded_def get_job_def by blast
    then show "new \<noteq> k \<and> map_option status (get_job s' k) = Some (status j)
             \<and> map_option status (get_job s' new) = Some ''queued''"
      using submit_job_result(1)[OF sub] assms(2) jb unfolding get_job_def
      by (simp add: update_conv')
  qed
  from 1 2 3 4 show ?thesis by blast
qed

lemma demo_s1_get_job:
  "get_job demo_s1 1 = Some \<lparr> job_id = 1, command = ''sim'', args = [''a''], priority = LOW,
      queue = ''default'', cores = 1, memory = ''1GB'', created_at = 10, started_at = None,
      completed_at = None, status = ''queued'', process_id = None, return_code = None \<rparr>"
  by (simp add: demo_s1_def demo_s0_def queue_eval)

theorem job_status_changes_witness:
  "reachable demo_s1
   \<and> map_option status (get_job demo_s1 1) = Some ''queued''
   \<and> map_option status (get_job (snd (start_job demo_s1 11 1)) 1) = Some ''running''
   \<and> map_option status (get_job (snd (complete_job demo_s1 11 1 0)) 1) = Some ''completed''
   \<and> map_option status (get_job (snd (cancel_job demo_s1 1)) 1) = Some ''cancelled''
   \<and> map_option status (get_job demo_s2 1) = Some ''queued''
   \<and> map_option status (get_job demo_s2 2) = Some ''queued''"
  using job_status_changes[OF reachable_demo_s1 demo_s1_get_job,
          of 11 1 0 "''sim''" "[''b'']" "''default''" "''high''" 1 "''1GB''"]
        reachable_demo_s1 demo_submit_2 demo_s1_job
  by simp

text \<open>
  The claim C1 as stated fails: \<open>complete_job\<close> takes the queued job 1 straight to
  completed, and \<open>start_job\<close> then takes the completed job to running.
\<close>

theorem start_job_revives_completed_job:
  "map_option status (get_job demo_s1 1) = Some ''queued''
   \<and> map_option status (get_job demo_completed 1) = Some ''completed''
   \<and> start_job demo_completed 21 1 = (True, demo_restarted)
   \<and> map_option status (get_job demo_restarted 1) = Some ''running''"
  by (simp add: demo_restarted_def demo_completed_def demo_s1_def demo_s0_def queue_eval)

subsection \<open>Rejected calls\<close>

text \<open>
  Claim C2, as the code has it.  \<open>cancel_job\<close> on a job whose status is running or
  completed returns false and leaves the whole state (status, timestamps, queues) as it
  was; on a job that is already cancelled, in a reachable state, it returns true and
  leaves the whole state as it was; \<open>cancel_job\<close>, \<open>start_job\<close> and \<open>complete_job\<close> on
  an id that is not in the job table return false and leave the whole state as it was.
\<close>

theorem cancel_job_rejections:
  "(get_job s jid = Some j \<and> (status j = ''running'' \<or> status j = ''completed'')
      \<longrightarrow> cancel_job s jid = (False, s))
   \<and> (reachable s \<and> get_job s jid = Some j \<and> status j = ''cancelled''
      \<longrightarrow> cancel_job s jid = (True, s))
   \<and> (get_job s jid = None
      \<longrightarrow> cancel_job s jid = (False, s) \<and> start_job s now jid = (False, s)
          \<and> complete_job s now jid rc = (False, s))"
proof -
  have a: "get_job s jid = Some j \<and> (status j = ''running'' \<or> status j = ''completed'')
      \<longrightarrow> cancel_job s jid = (False, s)"
    unfolding get_job_def cancel_job_def by auto
  have b: "reachable s \<and> get_job s jid = Some j \<and> status j = ''cancelled''
      \<longrightarrow> cancel_job s jid = (True, s)"
    using cancel_cancelled_job by blast
  have c: "get_job s jid = None
      \<longrightarrow> cancel_job s jid = (False, s) \<and> start_job s now jid = (False, s)
          \<and> complete_job s now jid rc = (False, s)"
    unfolding get_job_def cancel_job_def start_job_def complete_job_def by auto
  from a b c show ?thesis by blast
qed

lemma demo_running_get_job:
  "get_job demo_running 1 = Some \<lparr> job_id = 1, command = ''sim'', args = [''a''],
      priority = LOW, queue = ''default'', cores = 1, memory = ''1GB'', created_at = 10,
      started_at = Some 20, completed_at = None, status = ''running'', process_id = None,
      return_code = None \<rparr>"
  by (simp add: demo_running_def demo_s1_def demo_s0_def queue_eval)

lemma demo_cancelled_get_job:
  "get_job demo_cancelled 1 = Some \<lparr> job_id = 1, command = ''sim'', args = [''a''],
      priority = LOW, queue = ''default'', cores = 1, memory = ''1GB'', created_at = 10,
      started_at = None, completed_at = None, status = ''cancelled'', process_id = None,
      return_code = None \<rparr>"
  by (simp add: demo_cancelled_def demo_s1_def demo_s0_def queue_eval)

lemma demo_s1_no_job_7: "get_job demo_s1 7 = None"
  by (simp add: demo_s1_def demo_s0_def queue_eval)

theorem cancel_job_rejections_witness:
  "cancel_job demo_running 1 = (False, demo_running)
   \<and> reachable demo_cancelled
   \<and> cancel_job demo_cancelled 1 = (True, demo_cancelled)
   \<and> cancel_job demo_s1 7 = (False, demo_s1)
   \<and> start_job demo_s1 30 7 = (False, demo_s1)
   \<and> complete_job demo_s1 30 7 0 = (False, demo_s1)"
  using cancel_job_rejections[of demo_running 1 "the (get_job demo_running 1)" 30 0]
        cancel_job_rejections[of demo_cancelled 1 "the (get_job demo_cancelled 1)" 30 0]
        cancel_job_rejections[of demo_s1 7 undefined 30 0]
        demo_running_get_job demo_cancelled_get_job demo_s1_no_job_7 reachable_demo_cancelled
  by simp

text \<open>
  The claim C2 as stated fails: cancelling job 1 a second time, when its status is
  already cancelled, returns true.
\<close>

theorem cancel_job_twice_succeeds:
  "map_option status (get_job demo_cancelled 1) = Some ''cancelled''
   \<and> fst (cancel_job demo_cancelled 1) = True"
  by (simp add: demo_cancelled_def demo_s1_def demo_s0_def queue_eval)

subsection \<open>Queue order\<close>












subsection \<open>The status failed\<close>

lemma values_status:
  assumes "keys_distinct s" "status_known s" "j \<in> set (dict_values (jobs s))"
  shows "status j \<noteq> ''failed''"
proof -
  from assms(3) obtain k where "(k, j) \<in> set (jobs s)"
    unfolding dict_values_def by auto
  with assms(1) have "map_of (jobs s) k = Some j"
    unfolding keys_distinct_def by simp
  with assms(2) show ?thesis unfolding status_known_def by fastforce
qed

lemma lookup_all_known:
  "\<forall>jid \<in> set ids. dict_has js jid \<Longrightarrow>
     \<exists>found. lookup_all js ids = Inr found \<and> (\<forall>j \<in> set found. \<exists>k. map_of js k = Some j)"
proof (induction ids)
  case Nil
  then show ?case by simp
next
  case (Cons a ids)
  then obtain found where
    f: "lookup_all js ids = Inr found" "\<forall>j \<in> set found. \<exists>k. map_of js k = Some j"
    by auto
  from Cons.prems obtain j where "map_of js a = Some j" unfolding dict_has_def by auto
  with f show ?case by auto
qed

text \<open>
  Claim C9.  In every reachable state no job has the status failed: no operation assigns
  it.  So \<open>get_jobs\<close> with status failed returns the empty list, for any queue filter,
  and \<open>get_queue_stats\<close> returns (without raising) a failed count of 0 for every queue
  name.
\<close>

theorem no_job_ever_failed:
  assumes "reachable s"
  shows "(\<forall>k j. get_job s k = Some j \<longrightarrow> status j \<noteq> ''failed'')
       \<and> get_jobs s q (Some ''failed'') = []
       \<and> (\<exists>st. get_queue_stats s qn = Inr st \<and> n_failed st = 0)"
proof -
  note sk = reachable_status_known[OF assms]
  note kd = reachable_keys_distinct[OF assms]
  note qk = reachable_queued_known[OF assms]
  have a: "\<forall>k j. get_job s k = Some j \<longrightarrow> status j \<noteq> ''failed''"
    using sk unfolding status_known_def get_job_def by fastforce
  have "\<forall>j \<in> set (dict_values (jobs s)). status j \<noteq> ''failed''"
    using values_status[OF kd sk] by blast
  then have b: "get_jobs s q (Some ''failed'') = []"
    unfolding get_jobs_def Let_def by (auto split: option.splits simp: filter_empty_conv)
  have "\<forall>jid \<in> set (queue_ids s qn). dict_has (jobs s) jid"
    using queue_ids_known[OF qk] by blast
  from lookup_all_known[OF this] obtain found where
    f: "lookup_all (jobs s) (queue_ids s qn) = Inr found"
       "\<forall>j \<in> set found. \<exists>k. map_of (jobs s) k = Some j" by blast
  have "\<forall>j \<in> set found. status j \<noteq> ''failed''"
    using f(2) a unfolding get_job_def by blast
  then have "count_status ''failed'' found = 0"
    unfolding count_status_def by (simp add: filter_empty_conv)
  with f(1) have c: "\<exists>st. get_queue_stats s qn = Inr st \<and> n_failed st = 0"
    unfolding get_queue_stats_def queue_ids_def by simp
  from a b c show ?thesis by blast
qed

theorem no_job_ever_failed_witness:
  "reachable demo_s3
   \<and> get_jobs demo_s3 None (Some ''failed'') = []
   \<and> (\<exists>st. get_queue_stats demo_s3 ''default'' = Inr st \<and> n_failed st = 0)
   \<and> map_option status (get_job demo_s3 1) \<noteq> Some ''failed''"
  using no_job_ever_failed[OF reachable_demo_s3, of None "''default''"] reachable_demo_s3
  by (cases "get_job demo_s3 1") auto

section \<open>Properties of the resource monitor\<close>

lemma last_n_snoc:
  "last_n n (xs @ [x]) = (let ys = last_n n xs @ [x] in if length ys > n then tl ys else ys)"
proof (cases "length xs < n")
  case True
  then show ?thesis by (simp add: last_n_def Let_def)
next
  case False
  then have le: "n \<le> length xs" by simp
  have len: "length (last_n n xs) = n" using le by (simp add: last_n_def)
  show ?thesis
  proof (cases "n = 0")
    case True
    then show ?thesis by (simp add: last_n_def Let_def)
  next
    case False
    then have ne: "drop (length xs - n) xs \<noteq> []" using le by simp
    have "Suc (length xs) - n = Suc (length xs - n)" using le by simp
    moreover have "Suc (length xs - n) - length xs = 0" using le False by simp
    ultimately have "last_n n (xs @ [x]) = drop (Suc (length xs - n)) xs @ [x]"
      by (simp add: last_n_def)
    also have "\<dots> = tl (drop (length xs - n) xs) @ [x]"
      by (simp add: drop_Suc drop_tl)
    also have "\<dots> = tl (drop (length xs - n) xs @ [x])"
      using ne by simp
    finally show ?thesis using len by (simp add: last_n_def Let_def)
  qed
qed

lemma deque_append_last_n:
  "items d = last_n (maxlen d) xs \<Longrightarrow> items (deque_append d x) = last_n (maxlen d) (xs @ [x])"
  unfolding deque_append_def by (simp add: last_n_snoc Let_def)

lemma maxlen_deque_append: "maxlen (deque_append d x) = maxlen d"
  by (simp add: deque_append_def Let_def)

lemma length_last_n: "length (last_n n xs) \<le> n"
  by (simp add: last_n_def)

lemma last_n_overflow: "length xs = Suc n \<Longrightarrow> last_n n xs = tl xs"
  by (simp add: last_n_def drop_Suc)

lemma offered_snoc: "offered metric (sts @ [st]) = offered metric sts @ entry_for metric st"
  unfolding offered_def entry_for_def
  by (simp add: List.map_filter_def split: option.splits)

lemma history_append_ring:
  assumes "ring_holds m metric xs"
  shows "\<exists>m'. history_append m metric e = Inr m' \<and> history_size m' = history_size m
           \<and> ring_holds m' metric (xs @ [e])
           \<and> (\<forall>k. k \<noteq> metric \<longrightarrow> map_of (history m') k = map_of (history m) k)"
proof -
  from assms obtain d where d: "map_of (history m) metric = Some d"
    "maxlen d = nat (history_size m)" "items d = last_n (nat (history_size m)) xs"
    unfolding ring_holds_def by blast
  let ?m' = "m\<lparr>history := AList.update metric (deque_append d e) (history m)\<rparr>"
  have "history_append m metric e = Inr ?m'"
    unfolding history_append_def using d(1) by simp
  moreover have "ring_holds ?m' metric (xs @ [e])"
    unfolding ring_holds_def using d deque_append_last_n[of d xs e]
    by (simp add: update_conv' maxlen_deque_append)
  moreover have "\<forall>k. k \<noteq> metric \<longrightarrow> map_of (history ?m') k = map_of (history m) k"
    by (simp add: update_conv')
  ultimately show ?thesis by simp
qed

lemma ring_holds_other:
  "ring_holds m k xs \<Longrightarrow> map_of (history m') k = map_of (history m) k
     \<Longrightarrow> history_size m' = history_size m \<Longrightarrow> ring_holds m' k xs"
  unfolding ring_holds_def by simp

lemma optional_append_ring:
  assumes "ring_holds m metric xs"
  shows "\<exists>m'. (case eo of None \<Rightarrow> Inr m | Some e \<Rightarrow> history_append m metric e) = Inr m'
           \<and> history_size m' = history_size m
           \<and> ring_holds m' metric (xs @ (case eo of None \<Rightarrow> [] | Some e \<Rightarrow> [e]))
           \<and> (\<forall>k. k \<noteq> metric \<longrightarrow> map_of (history m') k = map_of (history m) k)"
proof (cases eo)
  case None
  then show ?thesis using assms by simp
next
  case (Some e)
  then show ?thesis using history_append_ring[OF assms, of e] by simp
qed

lemma add_to_history_rings:
  assumes "rings_hold m sts"
  shows "\<exists>m'. add_to_history m st = Inr m' \<and> history_size m' = history_size m
           \<and> rings_hold m' (sts @ [st])"
proof -
  from assms have r: "ring_holds m ''cpu'' (offered ''cpu'' sts)"
      "ring_holds m ''memory'' (offered ''memory'' sts)"
      "ring_holds m ''disk'' (offered ''disk'' sts)"
      "ring_holds m ''network'' (offered ''network'' sts)"
    and out: "\<forall>metric. metric \<notin> metrics \<longrightarrow> map_of (history m) metric = None"
    unfolding rings_hold_def metrics_def by simp_all
  from history_append_ring[OF r(1), of "cpu_entry st"] obtain m1 where
    m1: "history_append m ''cpu'' (cpu_entry st) = Inr m1" "history_size m1 = history_size m"
        "ring_holds m1 ''cpu'' (offered ''cpu'' sts @ [cpu_entry st])"
        "\<forall>k. k \<noteq> ''cpu'' \<longrightarrow> map_of (history m1) k = map_of (history m) k"
    by blast
  have r1: "ring_holds m1 ''memory'' (offered ''memory'' sts)"
    using ring_holds_other[OF r(2), of m1] m1(2,4) by simp
  from history_append_ring[OF r1, of "memory_entry st"] obtain m2 where
    m2: "history_append m1 ''memory'' (memory_entry st) = Inr m2"
        "history_size m2 = history_size m1"
        "ring_holds m2 ''memory'' (offered ''memory'' sts @ [memory_entry st])"
        "\<forall>k. k \<noteq> ''memory'' \<longrightarrow> map_of (history m2) k = map_of (history m1) k"
    by blast
  have r2: "ring_holds m2 ''disk'' (offered ''disk'' sts)"
    using ring_holds_other[OF r(3), of m2] m1(2,4) m2(2,4) by simp
  from optional_append_ring[OF r2, of "disk_entry st"] obtain m3 where
    m3: "(case disk_entry st of None \<Rightarrow> Inr m2 | Some e \<Rightarrow> history_append m2 ''disk'' e) = Inr m3"
        "history_size m3 = history_size m2"
        "ring_holds m3 ''disk'' (offered ''disk'' sts @ (case disk_entry st of None \<Rightarrow> [] | Some e \<Rightarrow> [e]))"
        "\<forall>k. k \<noteq> ''disk'' \<longrightarrow> map_of (history m3) k = map_of (history m2) k"
    by blast
  have r3: "ring_holds m3 ''network'' (offered ''network'' sts)"
    using ring_holds_other[OF r(4), of m3] m1(2,4) m2(2,4) m3(2,4) by simp
  from optional_append_ring[OF r3, of "network_entry st"] obtain m4 where
    m4: "(case network_entry st of None \<Rightarrow> Inr m3 | Some e \<Rightarrow> history_append m3 ''network'' e) = Inr m4"
        "history_size m4 = history_size m3"
        "ring_holds m4 ''network'' (offered ''network'' sts @ (case network_entry st of None \<Rightarrow> [] | Some e \<Rightarrow> [e]))"
        "\<forall>k. k \<noteq> ''network'' \<longrightarrow> map_of (history m4) k = map_of (history m3) k"
    by blast
  have run: "add_to_history m st = Inr m4"
    unfolding add_to_history_def using m1(1) m2(1) m3(1) m4(1) by simp
  have size: "history_size m4 = history_size m"
    using m1(2) m2(2) m3(2) m4(2) by simp
  have c: "ring_holds m4 ''cpu'' (offered ''cpu'' (sts @ [st]))"
    using ring_holds_other[OF m1(3), of m4] m2(2,4) m3(2,4) m4(2,4)
    by (simp add: offered_snoc entry_for_def)
  have me: "ring_holds m4 ''memory'' (offered ''memory'' (sts @ [st]))"
    using ring_holds_other[OF m2(3), of m4] m3(2,4) m4(2,4)
    by (simp add: offered_snoc entry_for_def)
  have d: "ring_holds m4 ''disk'' (offered ''disk'' (sts @ [st]))"
    using ring_holds_other[OF m3(3), of m4] m4(2,4)
    by (simp add: offered_snoc entry_for_def)
  have n: "ring_holds m4 ''network'' (offered ''network'' (sts @ [st]))"
    using m4(3) by (simp add: offered_snoc entry_for_def)
  have o: "\<forall>metric. metric \<notin> metrics \<longrightarrow> map_of (history m4) metric = None"
    using out m1(4) m2(4) m3(4) m4(4) unfolding metrics_def by simp
  have "rings_hold m4 (sts @ [st])"
    unfolding rings_hold_def using c me d n o by (simp add: metrics_def)
  with run size show ?thesis by blast
qed

lemma add_all_to_history_rings:
  "rings_hold m pre \<Longrightarrow>
     \<exists>m'. add_all_to_history m sts = Inr m' \<and> history_size m' = history_size m
          \<and> rings_hold m' (pre @ sts)"
proof (induction sts arbitrary: m pre)
  case Nil
  then show ?case by simp
next
  case (Cons st sts)
  from add_to_history_rings[OF Cons.prems, of st] obtain m1 where
    m1: "add_to_history m st = Inr m1" "history_size m1 = history_size m"
        "rings_hold m1 (pre @ [st])" by blast
  from Cons.IH[OF m1(3)] obtain m' where
    "add_all_to_history m1 sts = Inr m'" "history_size m' = history_size m1"
    "rings_hold m' ((pre @ [st]) @ sts)" by blast
  with m1 show ?case by simp
qed

lemma init_rings:
  assumes "ResourceMonitor_init arg = Inr m0"
  shows "rings_hold m0 []" and "0 \<le> history_size m0"
    and "history_size m0 = (case arg of None \<Rightarrow> 3600 | Some k \<Rightarrow> k)"
  using assms
  unfolding ResourceMonitor_init_def deque_new_def rings_hold_def ring_holds_def metrics_def
    offered_def last_n_def Let_def
  by (auto split: if_splits option.splits)

lemma rings_hold_ring:
  "rings_hold m sts \<Longrightarrow> ring m metric = last_n (nat (history_size m)) (offered metric sts)"
proof (cases "metric \<in> metrics")
  case True
  assume "rings_hold m sts"
  with True show ?thesis unfolding rings_hold_def ring_holds_def ring_def by fastforce
next
  case False
  assume "rings_hold m sts"
  with False have "map_of (history m) metric = None" unfolding rings_hold_def by blast
  moreover from False have "offered metric sts = []" unfolding metrics_def offered_def by simp
  ultimately show ?thesis by (simp add: ring_def last_n_def)
qed

text \<open>
  Claim C8.  A monitor created with capacity \<open>history_size\<close> (3600 when none is given)
  takes any sequence of snapshots without raising; afterwards the ring of every metric
  holds at most \<open>history_size\<close> samples, namely the last \<open>history_size\<close> of the samples
  offered to it, in the order of insertion; so after capacity + 1 insertions into a ring
  the first one is gone and the others remain in order.  A single append to a ring that
  is at capacity removes its oldest sample and adds the new one at the end.
\<close>

theorem history_rings_bounded_fifo:
  assumes "ResourceMonitor_init arg = Inr m0"
  shows "\<exists>m. add_all_to_history m0 sts = Inr m
      \<and> (\<forall>metric. length (ring m metric) \<le> nat (history_size m0))
      \<and> (\<forall>metric. ring m metric = last_n (nat (history_size m0)) (offered metric sts))
      \<and> (\<forall>metric. length (offered metric sts) = Suc (nat (history_size m0))
            \<longrightarrow> ring m metric = tl (offered metric sts))
      \<and> (arg = None \<longrightarrow> history_size m0 = 3600)
      \<and> (length (items d) = maxlen d \<and> 0 < maxlen d
            \<longrightarrow> items (deque_append d x) = tl (items d) @ [x])
      \<and> (length (items d) < maxlen d \<longrightarrow> items (deque_append d x) = items d @ [x])"
proof -
  from add_all_to_history_rings[OF init_rings(1)[OF assms], of sts] obtain m where
    m: "add_all_to_history m0 sts = Inr m" "history_size m = history_size m0"
       "rings_hold m sts" by auto
  have eq: "\<forall>metric. ring m metric = last_n (nat (history_size m0)) (offered metric sts)"
    using rings_hold_ring[OF m(3)] m(2) by simp
  then have le: "\<forall>metric. length (ring m metric) \<le> nat (history_size m0)"
    by (simp add: length_last_n)
  have ov: "\<forall>metric. length (offered metric sts) = Suc (nat (history_size m0))
            \<longrightarrow> ring m metric = tl (offered metric sts)"
    using eq by (simp add: last_n_overflow)
  have dflt: "arg = None \<longrightarrow> history_size m0 = 3600"
    using init_rings(3)[OF assms] by auto
  have full: "length (items d) = maxlen d \<and> 0 < maxlen d
            \<longrightarrow> items (deque_append d x) = tl (items d) @ [x]"
    by (cases "items d") (auto simp: deque_append_def Let_def)
  have room: "length (items d) < maxlen d \<longrightarrow> items (deque_append d x) = items d @ [x]"
    by (auto simp: deque_append_def Let_def)
  from m(1) eq le ov dflt full room show ?thesis by blast
qed

lemma demo_monitor_init: "ResourceMonitor_init (Some 2) = Inr demo_monitor"
  by (simp add: demo_monitor_def ResourceMonitor_init_def deque_new_def)

lemma demo_offered_cpu:
  "offered ''cpu'' [demo_stats 1 True, demo_stats 2 False, demo_stats 3 False]
     = [CpuSample 1 5 [4, 6], CpuSample 2 5 [4, 6], CpuSample 3 5 [4, 6]]"
  by (simp add: offered_def cpu_entry_def demo_stats_def)

theorem history_rings_bounded_fifo_witness:
  "ResourceMonitor_init (Some 2) = Inr demo_monitor
   \<and> (\<exists>m. add_all_to_history demo_monitor
             [demo_stats 1 True, demo_stats 2 False, demo_stats 3 False] = Inr m
         \<and> ring m ''cpu'' = [CpuSample 2 5 [4, 6], CpuSample 3 5 [4, 6]]
         \<and> length (ring m ''disk'') \<le> 2)
   \<and> items (deque_append \<lparr> maxlen = 2, items = [1, 2 :: nat] \<rparr> 3) = [2, 3]
   \<and> items (deque_append \<lparr> maxlen = 2, items = [1 :: nat] \<rparr> 2) = [1, 2]
   \<and> (\<exists>m1. ResourceMonitor_init None = Inr m1 \<and> history_size m1 = 3600)"
proof -
  have hs: "history_size demo_monitor = 2"
    by (simp add: demo_monitor_def ResourceMonitor_init_def deque_new_def)
  from history_rings_bounded_fifo[OF demo_monitor_init,
         of "[demo_stats 1 True, demo_stats 2 False, demo_stats 3 False]"
            "\<lparr> maxlen = 2, items = [1 :: nat] \<rparr>" 2]
  obtain m where
    m: "add_all_to_history demo_monitor
          [demo_stats 1 True, demo_stats 2 False, demo_stats 3 False] = Inr m"
       "\<forall>metric. length (ring m metric) \<le> nat (history_size demo_monitor)"
       "\<forall>metric. ring m metric = last_n (nat (history_size demo_monitor))
          (offered metric [demo_stats 1 True, demo_stats 2 False, demo_stats 3 False])"
    by blast
  have m2: "ring m ''cpu'' = [CpuSample 2 5 [4, 6], CpuSample 3 5 [4, 6]]"
    using m(3) hs by (simp add: demo_offered_cpu last_n_def)
  have m3: "length (ring m ''disk'') \<le> 2"
    using m(2) hs by simp
  from m(1) m2 m3 have a: "\<exists>m. add_all_to_history demo_monitor
             [demo_stats 1 True, demo_stats 2 False, demo_stats 3 False] = Inr m
         \<and> ring m ''cpu'' = [CpuSample 2 5 [4, 6], CpuSample 3 5 [4, 6]]
         \<and> length (ring m ''disk'') \<le> 2"
    by blast
  have b: "items (deque_append \<lparr> maxlen = 2, items = [1, 2 :: nat] \<rparr> 3) = [2, 3]"
    using history_rings_bounded_fifo[OF demo_monitor_init,
            of "[]" "\<lparr> maxlen = 2, items = [1, 2 :: nat] \<rparr>" 3]
    by simp
  have c: "items (deque_append \<lparr> maxlen = 2, items = [1 :: nat] \<rparr> 2) = [1, 2]"
    using history_rings_bounded_fifo[OF demo_monitor_init,
            of "[]" "\<lparr> maxlen = 2, items = [1 :: nat] \<rparr>" 2]
    by simp
  have i: "ResourceMonitor_init None
             = Inr (projr (ResourceMonitor_init None) :: ResourceMonitor)"
    by (simp add: ResourceMonitor_init_def deque_new_def)
  have d: "\<exists>m1. ResourceMonitor_init None = Inr m1 \<and> history_size m1 = 3600"
    using history_rings_bounded_fifo[OF i, of "[]" "\<lparr> maxlen = 2, items = [1 :: nat] \<rparr>" 2] i
    by blast
  from demo_monitor_init a b c d show ?thesis by blast
qed

section \<open>Properties of the process executor\<close>

lemmas executor_eval = execute_def execute_body_def execute_handlers_def setup_redirects_def
  setup_redirect_def close_redirects_def close_stream_def is_Exception_def
  execute_with_resources_def apply_limits_def limits_handlers_def Let_def

text \<open>
  With no redirection, a launch that fails with a missing executable or a denied
  permission makes \<open>execute\<close> print its message and return \<open>None\<close>.
\<close>

lemma execute_reports_launch_failure:
  assumes "d_redirects cmd = []"
  shows "popen env = Inl FileNotFoundError \<Longrightarrow>
           execute env procs cmd jid = ([CommandNotFound (d_command cmd)], procs, Inr None)"
    and "popen env = Inl PermissionError \<Longrightarrow>
           execute env procs cmd jid = ([PermissionDenied (d_command cmd)], procs, Inr None)"
  using assms by (simp_all add: executor_eval)

text \<open>A handle comes back from \<open>execute\<close> only for a background command that was spawned.\<close>

lemma execute_handle_only_background:
  assumes "snd (snd (execute env procs cmd jid)) = Inr (Some h)"
  shows "d_background cmd \<and> popen env = Inr h"
proof -
  obtain streams out0 where s: "setup_redirects (openable env) (d_redirects cmd) = (streams, out0)"
    by (cases "setup_redirects (openable env) (d_redirects cmd)") auto
  obtain out1 procs1 res where b: "execute_body env procs cmd jid = (out1, procs1, res)"
    by (cases "execute_body env procs cmd jid") auto
  from assms s b have "res = Inr (Some h)"
    by (simp add: execute_def split: option.splits)
  with b show ?thesis
    unfolding execute_body_def execute_handlers_def Let_def
    by (auto split: sum.splits if_splits option.splits)
qed

text \<open>
  A foreground command without redirection that is spawned and not interrupted: \<open>execute\<close>
  records the process and returns \<open>None\<close>.
\<close>

lemma execute_foreground_returns_nothing:
  assumes "\<not> d_background cmd" "d_redirects cmd = []" "popen env = Inr pid"
    "\<not> wait_interrupted env"
  shows "snd (snd (execute env procs cmd jid)) = Inr None"
  using assms by (simp add: executor_eval)

text \<open>
  Claim C6 fails on \<open>execute_with_resources\<close>: with a missing executable the exception
  of \<open>subprocess.Popen\<close> leaves the function, which prints nothing and returns nothing.
\<close>

theorem execute_with_resources_propagates_launch_failure:
  "execute_with_resources demo_env_missing demo_psutil demo_plain_cmd demo_resources
     = ([], Inl FileNotFoundError)"
  by (simp add: executor_eval demo_env_missing_def)

text \<open>
  Claim C10 fails on a foreground command with an \<open>&>\<close> redirection: the child is
  spawned and waited for, and then the \<open>finally\<close> block calls \<open>close\<close> on the integer
  \<open>subprocess.STDOUT\<close>, so \<open>AttributeError\<close> leaves \<open>execute\<close> instead of \<open>None\<close>
  being returned.
\<close>

theorem execute_foreground_redirect_both_raises:
  "\<not> d_background demo_cmd
   \<and> popen demo_env = Inr 4242
   \<and> setup_redirects (openable demo_env) (d_redirects demo_cmd)
       = ((None, Some (FileObject ''out.txt'' ''w''), Some STDOUT), [])
   \<and> snd (snd (execute_body demo_env [] demo_cmd None)) = Inr None
   \<and> snd (snd (execute demo_env [] demo_cmd None)) = Inl AttributeError"
  by (simp add: executor_eval demo_env_def demo_cmd_def)

text \<open>The same cleanup defeats the report of a launch failure by \<open>execute\<close>.\<close>

lemma execute_launch_failure_redirect_both_raises:
  "execute demo_env_missing [] demo_cmd None = ([CommandNotFound ''ls''], [], Inl AttributeError)"
  by (simp add: executor_eval demo_env_missing_def demo_cmd_def)

section \<open>Properties of the parser\<close>

subsection \<open>Memory sizes\<close>



































lemmas memory_eval = parse_memory_def units_def scaled_int_def py_float_def py_int_def
  float_times_def mantissa_def exponent_def cut_at_def take_sign_def digitpart_def digit_of_def
  py_strip_def is_space_def py_lower_def lower_char_def py_upper_def upper_char_def
  endswith_def drop_last_def scale10_def Let_def




text \<open>An infinity passes \<open>float\<close>, and \<open>int\<close> then raises an exception that is not caught.\<close>

lemma parse_memory_inf: "parse_memory ''inf'' = Inl OverflowError"
  by (simp add: memory_eval)




subsection \<open>Redirections and totality\<close>

lemma shlex_run_error: "shlex_run st tok s = Inl e \<Longrightarrow> e = ValueError"
  by (induction st tok s rule: shlex_run.induct)
     (auto split: if_splits sum.splits option.splits)

lemma filename_after_total: "\<exists>r. filename_after after = Inr r"
proof (cases "shlex_split (py_strip after)")
  case (Inl e)
  then have "e = ValueError" unfolding shlex_split_def by (rule shlex_run_error)
  with Inl show ?thesis by (simp add: filename_after_def Let_def)
next
  case (Inr toks)
  then show ?thesis by (cases toks) (simp_all add: filename_after_def Let_def)
qed

lemma recorded_snoc:
  "recorded ty (ms @ [(t, after)]) =
     (case recorded ty ms of
        Some filename \<Rightarrow> Some filename
      | None \<Rightarrow> if t = ty then extracted after else None)"
proof (induction ms)
  case Nil
  show ?case by (simp split: option.split)
next
  case (Cons m ms)
  obtain a b where m: "m = (a, b)" by (cases m)
  show ?case unfolding m
    by (cases "a = ty"; cases "extracted b"; simp add: Cons.IH)
qed

lemma collect_redirects_recorded:
  "\<exists>r. collect_redirects vs reds = Inr r
       \<and> (\<forall>ty. map_of r ty = (case recorded ty (rev vs) of
                                 Some filename \<Rightarrow> Some filename
                               | None \<Rightarrow> map_of reds ty))"
proof (induction vs arbitrary: reds)
  case Nil
  then show ?case by simp
next
  case (Cons m vs)
  obtain t after where m: "m = (t, after)" by (cases m)
  from filename_after_total obtain fo where fo: "filename_after after = Inr fo" by blast
  show ?case
  proof (cases fo)
    case None
    from Cons.IH[of reds] obtain r where
      r: "collect_redirects vs reds = Inr r"
         "\<forall>ty. map_of r ty = (case recorded ty (rev vs) of
                                 Some filename \<Rightarrow> Some filename
                               | None \<Rightarrow> map_of reds ty)" by blast
    have "extracted after = None" using fo None by (simp add: extracted_def)
    then show ?thesis using r fo None m
      by (auto simp: recorded_snoc split: option.splits)
  next
    case (Some filename)
    from Cons.IH[of "AList.update t filename reds"] obtain r where
      r: "collect_redirects vs (AList.update t filename reds) = Inr r"
         "\<forall>ty. map_of r ty = (case recorded ty (rev vs) of
                                 Some filename \<Rightarrow> Some filename
                               | None \<Rightarrow> map_of (AList.update t filename reds) ty)" by blast
    have "extracted after = Some filename" using fo Some by (simp add: extracted_def)
    then show ?thesis using r fo Some m
      by (auto simp: recorded_snoc update_conv' split: option.splits)
  qed
qed

lemma extract_redirects_recorded:
  "\<exists>reds remaining. extract_redirects s = Inr (reds, remaining)
       \<and> (\<forall>ty. map_of reds ty = recorded ty (find_redirects s))"
proof (cases "find_redirects s = []")
  case True
  then show ?thesis by (simp add: extract_redirects_def)
next
  case False
  from collect_redirects_recorded[of "rev (find_redirects s)" "[]"] obtain r where
    "collect_redirects (rev (find_redirects s)) [] = Inr r"
    "\<forall>ty. map_of r ty = (case recorded ty (rev (rev (find_redirects s))) of
                                 Some filename \<Rightarrow> Some filename
                               | None \<Rightarrow> map_of [] ty)" by blast
  with False show ?thesis
    by (auto simp: extract_redirects_def Let_def split: option.splits)
qed

lemma tokenize_total: "\<exists>toks. tokenize remaining = Inr toks"
proof (cases "shlex_split remaining")
  case (Inl e)
  then have "e = ValueError" unfolding shlex_split_def by (rule shlex_run_error)
  with Inl show ?thesis by (simp add: tokenize_def)
next
  case (Inr toks)
  then show ?thesis by (simp add: tokenize_def)
qed

lemma parse_single_command_recorded:
  "\<exists>d. parse_single_command s = Inr d
       \<and> (\<forall>ty. map_of (d_redirects d) ty = recorded ty (find_redirects s))
       \<and> d_raw d = s \<and> \<not> d_background d"
proof -
  from extract_redirects_recorded[of s] obtain reds remaining where
    e: "extract_redirects s = Inr (reds, remaining)"
       "\<forall>ty. map_of reds ty = recorded ty (find_redirects s)" by blast
  from tokenize_total[of remaining] obtain toks where t: "tokenize remaining = Inr toks" by blast
  show ?thesis using e t by (cases toks) (simp_all add: parse_single_command_def)
qed

lemma parse_parts_total: "\<exists>cmds. parse_parts bg n i parts = Inr cmds \<and> length cmds = length parts"
proof (induction parts arbitrary: i)
  case Nil
  then show ?case by simp
next
  case (Cons p parts)
  from parse_single_command_recorded[of p] obtain d where d: "parse_single_command p = Inr d"
    by blast
  from Cons[of "Suc i"] obtain cmds where
    "parse_parts bg n (Suc i) parts = Inr cmds" "length cmds = length parts" by blast
  with d show ?case by simp
qed

lemma parse_total_aux: "\<exists>cmds. parse line = Inr cmds"
proof -
  have p: "\<And>bg ps. \<exists>cmds. parse_parts bg (length ps) 0 ps = Inr cmds"
    using parse_parts_total by blast
  show ?thesis
  proof (cases "py_strip line = []")
    case True
    then show ?thesis by (simp add: parse_def)
  next
    case False
    then show ?thesis
      using p[of "endswith (py_strip line) ''&''"
              "split_pipes (if endswith (py_strip line) ''&''
                            then py_strip (butlast (py_strip line)) else py_strip line)"]
      by (simp add: parse_def Let_def)
  qed
qed


lemma recorded_first:
  assumes "\<forall>(t, a) \<in> set before. t \<noteq> ty \<or> extracted a = None"
    and "extracted after = Some filename"
  shows "recorded ty (before @ (ty, after) # later) = Some filename"
  using assms by (induction before) auto

lemmas parser_eval = parse_def parse_single_command_def extract_redirects_def tokenize_def
  filename_after_def extracted_def shlex_split_def shlex_whitespace_def shlex_quote_def
  shlex_escape_def split_pipes_def py_split_def py_strip_def is_space_def endswith_def
  dict_values_def Let_def

text \<open>
  Claim C4, as the code has it.  The matches of the redirection pattern are visited from
  right to left, so for each redirection type the descriptor records the filename of the
  first (leftmost) occurrence from which a filename can be taken: an earlier occurrence
  overwrites the value taken from a later one.
\<close>

theorem first_redirect_occurrence_wins:
  "(\<exists>d. parse_single_command s = Inr d
        \<and> (\<forall>ty. map_of (d_redirects d) ty = recorded ty (find_redirects s)))
   \<and> (find_redirects s = before @ (ty, after) # later
        \<and> (\<forall>(t, a) \<in> set before. t \<noteq> ty \<or> extracted a = None)
        \<and> extracted after = Some filename
      \<longrightarrow> (\<exists>d. parse_single_command s = Inr d \<and> map_of (d_redirects d) ty = Some filename))"
proof -
  from parse_single_command_recorded[of s] obtain d where
    d: "parse_single_command s = Inr d"
       "\<forall>ty. map_of (d_redirects d) ty = recorded ty (find_redirects s)" by blast
  have "find_redirects s = before @ (ty, after) # later
        \<and> (\<forall>(t, a) \<in> set before. t \<noteq> ty \<or> extracted a = None)
        \<and> extracted after = Some filename
      \<longrightarrow> map_of (d_redirects d) ty = Some filename"
    using d(2) recorded_first[of before ty after filename later] by auto
  with d show ?thesis by blast
qed

lemma demo_find_redirects:
  "find_redirects ''cmd > a > b'' = [(''>'', '' a > b''), (''>'', '' b'')]"
  by simp

lemma demo_extracted: "extracted '' a > b'' = Some ''a''" "extracted '' b'' = Some ''b''"
  by (simp_all add: parser_eval)

theorem first_redirect_occurrence_wins_witness:
  "find_redirects ''cmd > a > b'' = [] @ (''>'', '' a > b'') # [(''>'', '' b'')]
   \<and> extracted '' a > b'' = Some ''a''
   \<and> (\<exists>d. parse_single_command ''cmd > a > b'' = Inr d
          \<and> map_of (d_redirects d) ''>'' = Some ''a'')"
  using first_redirect_occurrence_wins[of "''cmd > a > b''" "[]" "''>''" "'' a > b''"
          "[(''>'', '' b'')]" "''a''"]
        demo_find_redirects demo_extracted
  by simp

text \<open>
  The claim C4 as stated fails: of two \<open>>\<close> redirections the descriptor records the
  filename of the left one, and the filename of the right one is left among the
  arguments.
\<close>

theorem later_redirect_does_not_overwrite:
  "find_redirects ''cmd > a > b'' = [(''>'', '' a > b''), (''>'', '' b'')]
   \<and> extracted '' a > b'' = Some ''a''
   \<and> extracted '' b'' = Some ''b''
   \<and> parse_single_command ''cmd > a > b''
       = Inr \<lparr> d_command = ''cmd'', d_args = [''b''], d_redirects = [(''>'', ''a'')],
               d_background = False, d_pipe_from = False, d_pipe_to = False,
               d_raw = ''cmd > a > b'' \<rparr>"
  by (simp add: parser_eval)

text \<open>
  Claim C7.  \<open>parse\<close> returns a list of descriptors for every input string and
  \<open>_parse_single_command\<close> a descriptor for every stage: no exception leaves them.  When
  \<open>shlex.split\<close> raises on the remaining text, the tokens are those of \<open>str.split\<close>; when
  it raises on the text after a redirection operator, no filename is recorded for that
  operator.
\<close>

theorem parse_never_raises:
  "(\<exists>cmds. parse line = Inr cmds)
   \<and> (\<exists>d. parse_single_command s = Inr d)
   \<and> (shlex_split remaining = Inl e \<longrightarrow> tokenize remaining = Inr (py_split remaining))
   \<and> (shlex_split (py_strip after) = Inl e \<longrightarrow> filename_after after = Inr None)"
proof -
  have a: "shlex_split remaining = Inl e \<longrightarrow> tokenize remaining = Inr (py_split remaining)"
    using shlex_run_error[of Between "[]" remaining e]
    by (auto simp: tokenize_def shlex_split_def)
  have "shlex_split (py_strip after) = Inl e \<longrightarrow> e = ValueError \<and> py_strip after \<noteq> []"
    using shlex_run_error[of Between "[]" "py_strip after" e]
    by (auto simp: shlex_split_def)
  then have b: "shlex_split (py_strip after) = Inl e \<longrightarrow> filename_after after = Inr None"
    by (auto simp: filename_after_def Let_def)
  show ?thesis
    using parse_total_aux[of line] parse_single_command_recorded[of s] a b by blast
qed

lemma demo_unbalanced_raises: "shlex_split demo_unbalanced = Inl ValueError"
  by (simp add: demo_unbalanced_def parser_eval)

lemma demo_unbalanced_split: "py_split demo_unbalanced = [''echo'', [CHR 0x22] @ ''hi'']"
  by (simp add: demo_unbalanced_def parser_eval)

theorem parse_never_raises_witness:
  "shlex_split demo_unbalanced = Inl ValueError
   \<and> tokenize demo_unbalanced = Inr [''echo'', [CHR 0x22] @ ''hi'']
   \<and> shlex_split (py_strip ('' '' @ demo_unbalanced)) = Inl ValueError
   \<and> filename_after ('' '' @ demo_unbalanced) = Inr None
   \<and> (\<exists>cmds. parse demo_unbalanced = Inr cmds)"
proof -
  have s: "py_strip ('' '' @ demo_unbalanced) = demo_unbalanced"
    by (simp add: demo_unbalanced_def py_strip_def is_space_def)
  show ?thesis
    using parse_never_raises[of demo_unbalanced demo_unbalanced demo_unbalanced ValueError
            "'' '' @ demo_unbalanced"]
          demo_unbalanced_raises demo_unbalanced_split s
    by simp
qed

text \<open>The whole line with the unbalanced quote, parsed.\<close>

lemma parse_demo_unbalanced:
  "parse demo_unbalanced
     = Inr [\<lparr> d_command = ''echo'', d_args = [[CHR 0x22] @ ''hi''], d_redirects = [],
               d_background = False, d_pipe_from = False, d_pipe_to = False,
               d_raw = demo_unbalanced \<rparr>]"
  by (simp add: demo_unbalanced_def parser_eval)

end
